theory Spec2Isabelle
  imports Main
begin

section \<open>Data model\<close>

text \<open>
  The bot of \<^verbatim>\<open>src/server/bot.ts\<close> is a set of event handlers over a storage object and an
  in-memory map \<^verbatim>\<open>userStates\<close>. Rows are records, tables are lists in insertion order,
  nullable columns are options. Times are milliseconds since the epoch. Fields that only
  feed message text (prize description, creation dates) are left out.
\<close>

datatype tx_type = DailyReward | Referral | RaffleEntryTx | ShopPurchase

record user =
  uid :: nat
  telegramId :: string
  username :: "string option"
  firstName :: "string option"
  lastName :: "string option"
  referralCode :: string
  referredBy :: "string option"
  coins :: int
  streak :: int
  lastDailyReward :: "int option"

record transaction =
  userId :: nat
  ttype :: tx_type
  amount :: int
  description :: string

record raffle =
  rid :: nat
  title :: string
  entryCost :: int
  currentEntries :: int
  maxEntries :: "int option"
  endDate :: int
  raffleActive :: bool

record raffle_entry =
  raffleId :: nat
  entryUserId :: nat
  entries :: int

record shop_item =
  iid :: nat
  itemName :: string
  cost :: int
  stock :: "int option"
  itemActive :: bool

record purchase =
  purchaseUserId :: nat
  itemId :: nat
  quantity :: int
  totalCost :: int
  status :: string

text \<open>
  The whole state a handler can read or write: the storage tables, the two reward
  settings (\<^verbatim>\<open>None\<close>: the key is absent or its value is empty, so \<^verbatim>\<open>|| '1'\<close> applies; a
  stored value is taken to be a decimal integer, which \<^verbatim>\<open>parseInt(_, 10)\<close> returns), the map
  \<^verbatim>\<open>userStates\<close> of bot.ts, and the host's local-time offset from UTC in milliseconds,
  which the local getters of \<^verbatim>\<open>Date\<close> read (a fixed offset: no daylight saving).
\<close>

record world =
  users :: "user list"
  nextUserId :: nat
  transactions :: "transaction list"
  raffles :: "raffle list"
  raffleEntries :: "raffle_entry list"
  shopItems :: "shop_item list"
  purchases :: "purchase list"
  daily_reward_amount :: "int option"
  referral_reward_amount :: "int option"
  userStates :: "string \<Rightarrow> (string \<times> int) option"
  hostOffset :: int

text \<open>What a handler sends back: one constructor per message of bot.ts, with the numbers it shows.\<close>

datatype reply =
    PleaseStartFirst
  | AlreadyClaimedToday
  | DailyClaimed int int int
  | DailyCheckinDone int int
  | ReferralWelcome int
  | MainMenu int
  | SorrySomethingWrong
  | InvalidInviteCode
  | OwnInviteCode
  | AlreadyUsedInviteCode
  | InviteCodeAccepted string int int
  | NotEnoughCoins int
  | OutOfStock
  | RaffleEntered string int
  | Purchased string int
  | RaffleNotFound
  | ItemNotFound
  | UserNotFound
  | EnterCodePrompt int
  | Listing

section \<open>JavaScript strings and numbers\<close>

text \<open>
  Strings are modelled on their ASCII code units: \<^verbatim>\<open>trim\<close> strips tab, line feed, vertical
  tab, form feed, carriage return and space; \<^verbatim>\<open>toUpperCase\<close> maps a..z to A..Z and leaves
  every other unit alone.
\<close>

definition truthy :: "string option \<Rightarrow> bool" where
  "truthy x = (case x of None \<Rightarrow> False | Some s \<Rightarrow> s \<noteq> [])"

definition js_or :: "string option \<Rightarrow> string option \<Rightarrow> string option" where
  "js_or a b = (if truthy a then a else b)"

definition isSpace :: "char \<Rightarrow> bool" where
  "isSpace c = (let n = (of_char c :: nat) in (9 \<le> n \<and> n \<le> 13) \<or> n = 32)"

definition trim :: "string \<Rightarrow> string" where
  "trim s = rev (dropWhile isSpace (rev (dropWhile isSpace s)))"

definition toUpperChar :: "char \<Rightarrow> char" where
  "toUpperChar c = (let n = (of_char c :: nat) in if 97 \<le> n \<and> n \<le> 122 then char_of (n - 32) else c)"

definition toUpperCase :: "string \<Rightarrow> string" where
  "toUpperCase s = map toUpperChar s"

definition startsWith :: "string \<Rightarrow> string \<Rightarrow> bool" where
  "startsWith s p = (take (length p) s = p)"

text \<open>
  \<^verbatim>\<open>parseInt(s)\<close> with no radix: leading white space is skipped, one sign is read, a prefix
  0x or 0X switches to radix 16, and the longest run of digits of the radix is the value;
  no digit gives \<^verbatim>\<open>NaN\<close>, here \<^verbatim>\<open>None\<close>. The value is an integer of any size: the source
  only compares it with list lengths and row ids, where the rounding of a double
  changes nothing.
\<close>

definition digitOf :: "nat \<Rightarrow> char \<Rightarrow> nat option" where
  "digitOf r c =
     (let n = (of_char c :: nat);
          v = (if 48 \<le> n \<and> n \<le> 57 then Some (n - 48)
               else if 97 \<le> n \<and> n \<le> 122 then Some (n - 87)
               else if 65 \<le> n \<and> n \<le> 90 then Some (n - 55)
               else None)
      in case v of None \<Rightarrow> None | Some d \<Rightarrow> if d < r then Some d else None)"

definition digitsValue :: "nat \<Rightarrow> string \<Rightarrow> nat" where
  "digitsValue r z = foldl (\<lambda>a c. a * r + (case digitOf r c of None \<Rightarrow> 0 | Some d \<Rightarrow> d)) 0 z"

definition parseInt :: "string \<Rightarrow> int option" where
  "parseInt str =
     (let s = dropWhile isSpace str;
          neg = (take 1 s = ''-'');
          s1 = (if take 1 s = ''-'' \<or> take 1 s = ''+'' then drop 1 s else s);
          hex = (take 2 s1 = ''0x'' \<or> take 2 s1 = ''0X'');
          r = (if hex then 16 else 10);
          s2 = (if hex then drop 2 s1 else s1);
          z = takeWhile (\<lambda>c. digitOf r c \<noteq> None) s2
      in if z = [] then None
         else Some (if neg then - int (digitsValue r z) else int (digitsValue r z)))"

text \<open>\<^verbatim>\<open>data.split('_')[1]\<close> for a \<^verbatim>\<open>data\<close> that holds an underscore: the piece between the
  first underscore and the next.\<close>

definition splitSecond :: "string \<Rightarrow> string" where
  "splitSecond s = takeWhile (\<lambda>c. c \<noteq> CHR ''_'') (drop 1 (dropWhile (\<lambda>c. c \<noteq> CHR ''_'') s))"

text \<open>\<^verbatim>\<open>generateReferralCode\<close>: \<^verbatim>\<open>nanoid(8).toUpperCase()\<close>. The random identifier is an
  argument; nanoid draws 8 units from A-Z, a-z, 0-9, underscore and hyphen.\<close>

definition nanoidUnit :: "char \<Rightarrow> bool" where
  "nanoidUnit c =
     (let n = (of_char c :: nat)
      in (48 \<le> n \<and> n \<le> 57) \<or> (65 \<le> n \<and> n \<le> 90) \<or> (97 \<le> n \<and> n \<le> 122) \<or> n = 95 \<or> n = 45)"

definition nanoid8 :: "string \<Rightarrow> bool" where
  "nanoid8 z = (length z = 8 \<and> list_all nanoidUnit z)"

definition generateReferralCode :: "string \<Rightarrow> string" where
  "generateReferralCode nano = toUpperCase nano"

text \<open>\<^verbatim>\<open>toPST\<close> and \<^verbatim>\<open>canClaimDailyReward\<close>. \<^verbatim>\<open>localMidnight\<close> is
  \<^verbatim>\<open>new Date(d.getFullYear(), d.getMonth(), d.getDate()).getTime()\<close>: the start of the local
  day of \<^verbatim>\<open>d\<close> on a host at offset \<^verbatim>\<open>off\<close>.\<close>

definition toPST :: "int \<Rightarrow> int" where
  "toPST t = t + (- 8 * 60 * 60 * 1000)"

definition localMidnight :: "int \<Rightarrow> int \<Rightarrow> int" where
  "localMidnight off t = ((t + off) div 86400000) * 86400000 - off"

definition canClaimDailyReward :: "int \<Rightarrow> int \<Rightarrow> int option \<Rightarrow> bool" where
  "canClaimDailyReward off now lastReward =
     (case lastReward of
        None \<Rightarrow> True
      | Some l \<Rightarrow> localMidnight off (toPST now) > localMidnight off (toPST l))"

section \<open>Storage\<close>

text \<open>
  Modelled from the spec: \<^verbatim>\<open>server/storage.ts\<close> is not among the sources; bot.ts only calls
  it. The spec's storage interface is "get/create/update user by external identifier; get
  user by referral code; list active raffles/shop items; get raffle/item by id; create
  raffle entry / purchase / transaction record; update raffle/item mutable counters; get
  bot setting by key". Each call below is that row operation on the tables of
  \<^typ>\<open>world\<close>: a lookup returns the first matching row, an update rewrites the matching
  rows and touches no other, a create appends.
\<close>

definition getUserByTelegramId :: "world \<Rightarrow> string \<Rightarrow> user option" where
  "getUserByTelegramId s tid = find (\<lambda>u. telegramId u = tid) (users s)"

definition getUserByReferralCode :: "world \<Rightarrow> string \<Rightarrow> user option" where
  "getUserByReferralCode s code = find (\<lambda>u. referralCode u = code) (users s)"

definition createUser ::
  "world \<Rightarrow> string \<Rightarrow> string option \<Rightarrow> string option \<Rightarrow> string option \<Rightarrow> string \<Rightarrow> string option
     \<Rightarrow> world \<times> user" where
  "createUser s tid un fnm lnm code refBy =
     (let u = \<lparr>uid = nextUserId s, telegramId = tid, username = un, firstName = fnm,
                lastName = lnm, referralCode = code, referredBy = refBy, coins = 0,
                streak = 0, lastDailyReward = None\<rparr>
      in (s\<lparr>users := users s @ [u], nextUserId := Suc (nextUserId s)\<rparr>, u))"

definition updateUser :: "world \<Rightarrow> string \<Rightarrow> (user \<Rightarrow> user) \<Rightarrow> world" where
  "updateUser s tid f = s\<lparr>users := map (\<lambda>u. if telegramId u = tid then f u else u) (users s)\<rparr>"

definition createTransaction :: "world \<Rightarrow> nat \<Rightarrow> tx_type \<Rightarrow> int \<Rightarrow> string \<Rightarrow> world" where
  "createTransaction s i ty amt d =
     s\<lparr>transactions := transactions s @ [\<lparr>userId = i, ttype = ty, amount = amt, description = d\<rparr>]\<rparr>"

definition getActiveRaffles :: "world \<Rightarrow> raffle list" where
  "getActiveRaffles s = filter raffleActive (raffles s)"

definition getRaffleById :: "world \<Rightarrow> int option \<Rightarrow> raffle option" where
  "getRaffleById s i = find (\<lambda>r. Some (int (rid r)) = i) (raffles s)"

definition enterRaffle :: "world \<Rightarrow> nat \<Rightarrow> nat \<Rightarrow> int \<Rightarrow> world" where
  "enterRaffle s r u n =
     s\<lparr>raffleEntries := raffleEntries s @ [\<lparr>raffleId = r, entryUserId = u, entries = n\<rparr>]\<rparr>"

definition updateRaffle :: "world \<Rightarrow> nat \<Rightarrow> (raffle \<Rightarrow> raffle) \<Rightarrow> world" where
  "updateRaffle s i f = s\<lparr>raffles := map (\<lambda>r. if rid r = i then f r else r) (raffles s)\<rparr>"

definition getActiveShopItems :: "world \<Rightarrow> shop_item list" where
  "getActiveShopItems s = filter itemActive (shopItems s)"

definition getAllShopItems :: "world \<Rightarrow> shop_item list" where
  "getAllShopItems s = shopItems s"

definition createPurchase :: "world \<Rightarrow> nat \<Rightarrow> nat \<Rightarrow> int \<Rightarrow> int \<Rightarrow> string \<Rightarrow> world" where
  "createPurchase s u i q c st =
     s\<lparr>purchases := purchases s @
        [\<lparr>purchaseUserId = u, itemId = i, quantity = q, totalCost = c, status = st\<rparr>]\<rparr>"

definition updateShopItem :: "world \<Rightarrow> nat \<Rightarrow> (shop_item \<Rightarrow> shop_item) \<Rightarrow> world" where
  "updateShopItem s i f = s\<lparr>shopItems := map (\<lambda>x. if iid x = i then f x else x) (shopItems s)\<rparr>"

definition dailyRewardAmount :: "world \<Rightarrow> int" where
  "dailyRewardAmount s = (case daily_reward_amount s of None \<Rightarrow> 1 | Some v \<Rightarrow> v)"

definition referralRewardAmount :: "world \<Rightarrow> int" where
  "referralRewardAmount s = (case referral_reward_amount s of None \<Rightarrow> 1 | Some v \<Rightarrow> v)"

text \<open>
  Modelled from the spec: \<^verbatim>\<open>storage.awardReward(telegramId, amount, type, description)\<close> is
  not among the sources. bot.ts uses it to "give coins" and reads the updated user's
  balance from its result; the spec has a reward "credit" the amount "as its own
  Transaction". So it adds the amount to the user's coins, appends one transaction of the
  given type and amount, and returns the updated user (nothing when no user has the id).
\<close>

definition awardReward :: "world \<Rightarrow> string \<Rightarrow> int \<Rightarrow> tx_type \<Rightarrow> string \<Rightarrow> world \<times> user option" where
  "awardReward s tid amt ty d =
     (case getUserByTelegramId s tid of
        None \<Rightarrow> (s, None)
      | Some u \<Rightarrow>
          (createTransaction (updateUser s tid (\<lambda>v. v\<lparr>coins := coins v + amt\<rparr>)) (uid u) ty amt d,
           Some (u\<lparr>coins := coins u + amt\<rparr>)))"

text \<open>
  Modelled from the spec: \<^verbatim>\<open>storage.claimDaily(telegramId, amount)\<close> is not among the
  sources. The spec: "increments coins by the configured daily amount, increments streak,
  sets lastDailyReward to now, appends a Transaction of type daily_reward". The clock it
  reads is the argument \<^verbatim>\<open>now\<close>; the description it writes is taken to be the one of the
  button path.
\<close>

definition claimDaily :: "world \<Rightarrow> string \<Rightarrow> int \<Rightarrow> int \<Rightarrow> world \<times> user option" where
  "claimDaily s tid amt now =
     (case getUserByTelegramId s tid of
        None \<Rightarrow> (s, None)
      | Some u \<Rightarrow>
          (createTransaction
             (updateUser s tid
                (\<lambda>v. v\<lparr>coins := coins v + amt, streak := streak v + 1, lastDailyReward := Some now\<rparr>))
             (uid u) DailyReward amt ''Daily login reward'',
           Some (u\<lparr>coins := coins u + amt, streak := streak u + 1, lastDailyReward := Some now\<rparr>)))"

section \<open>Handlers of bot.ts\<close>

text \<open>
  A handler takes the state and the fields of the event it reads and returns the state it
  leaves with the messages it sent. The definitions of this section are the runs in which
  every awaited call resolves, so that the handler goes from its first line to a return
  or to its last line; the runs in which an awaited call rejects, and the handler ends in
  its catch block, follow in the next section. What the clock and \<^verbatim>\<open>nanoid\<close> return are
  arguments. A sender id that is missing is the empty string, a message without text has
  the empty text (both are falsy in the source).
\<close>

definition displayName :: "user \<Rightarrow> string" where
  "displayName u = (case js_or (firstName u) (username u) of None \<Rightarrow> ''null'' | Some n \<Rightarrow> n)"

text \<open>The referral block of the \<^verbatim>\<open>/start\<close> handler (lines 147 to 165), for a code that was given.\<close>

definition startReferral :: "world \<Rightarrow> user \<Rightarrow> string \<Rightarrow> world \<times> user option \<times> reply list" where
  "startReferral s usr code =
     (case getUserByReferralCode s code of
        None \<Rightarrow> (s, Some usr, [])
      | Some referrer \<Rightarrow>
          (let referralReward = referralRewardAmount s;
               s1 = fst (awardReward s (telegramId referrer) referralReward Referral
                      (''Referral bonus for inviting '' @ displayName usr));
               r2 = awardReward s1 (telegramId usr) referralReward Referral
                      ''Welcome bonus for joining via referral'';
               s3 = updateUser (fst r2) (telegramId usr) (\<lambda>v. v\<lparr>referredBy := Some code\<rparr>)
           in (s3, snd r2, [ReferralWelcome referralReward])))"

text \<open>The branch of the \<^verbatim>\<open>/start\<close> handler for a user that exists (lines 129 to 144): the
  names are written back when one of them changed. It returns the state and the user
  object the handler goes on with.\<close>

definition startSync ::
  "world \<Rightarrow> string \<Rightarrow> user \<Rightarrow> string option \<Rightarrow> string option \<Rightarrow> string option \<Rightarrow> world \<times> user" where
  "startSync s tid u fromUsername fromFirst fromLast =
     (let un = js_or fromUsername (username u);
          fnm = js_or fromFirst (firstName u);
          lnm = js_or fromLast (lastName u)
      in if un \<noteq> username u \<or> fnm \<noteq> firstName u \<or> lnm \<noteq> lastName u
         then (updateUser s tid (\<lambda>v. v\<lparr>username := un, firstName := fnm, lastName := lnm\<rparr>),
               u\<lparr>username := un, firstName := fnm, lastName := lnm\<rparr>)
         else (s, u))"

text \<open>The \<^verbatim>\<open>/start\<close> handler (lines 104 to 219); \<^verbatim>\<open>refCode\<close> is the handler's
  \<^verbatim>\<open>referralCode\<close>, that is \<^verbatim>\<open>match?.[1]\<close>. A user that does not exist is created with
  \<^verbatim>\<open>referredBy: referralCode || null\<close>.\<close>

definition start_cmd ::
  "world \<Rightarrow> string \<Rightarrow> string option \<Rightarrow> string option \<Rightarrow> string option \<Rightarrow> string option \<Rightarrow> string
     \<Rightarrow> world \<times> reply list" where
  "start_cmd s tid fromUsername fromFirst fromLast refCode nano =
     (if tid = [] then (s, [])
      else
        let r1 = (case getUserByTelegramId s tid of
                    None \<Rightarrow>
                      createUser s tid (js_or fromUsername None) (js_or fromFirst None)
                        (js_or fromLast None) (generateReferralCode nano) (js_or refCode None)
                  | Some u \<Rightarrow> startSync s tid u fromUsername fromFirst fromLast);
            usr = snd r1;
            r2 = (case refCode of
                    None \<Rightarrow> (fst r1, Some usr, [])
                  | Some code \<Rightarrow>
                      if \<not> truthy (referredBy usr) \<and> code \<noteq> []
                      then startReferral (fst r1) usr code
                      else (fst r1, Some usr, []))
        in case fst (snd r2) of
             None \<Rightarrow> (fst r2, snd (snd r2) @ [SorrySomethingWrong])
           | Some shown \<Rightarrow> (fst r2, snd (snd r2) @ [MainMenu (coins shown)]))"

text \<open>The \<^verbatim>\<open>/daily\<close> handler (lines 221 to 252).\<close>

definition daily_cmd :: "world \<Rightarrow> string \<Rightarrow> int \<Rightarrow> int \<Rightarrow> world \<times> reply list" where
  "daily_cmd s tid now claimTime =
     (if tid = [] then (s, [])
      else case getUserByTelegramId s tid of
        None \<Rightarrow> (s, [PleaseStartFirst])
      | Some usr \<Rightarrow>
          if \<not> canClaimDailyReward (hostOffset s) now (lastDailyReward usr)
          then (s, [AlreadyClaimedToday])
          else
            let dailyAmount = dailyRewardAmount s;
                r = claimDaily s tid dailyAmount claimTime
            in case snd r of
                 None \<Rightarrow> (fst r, [SorrySomethingWrong])
               | Some updatedUser \<Rightarrow>
                   (fst r, [DailyClaimed dailyAmount (streak updatedUser) (coins updatedUser)]))"

text \<open>The handlers of \<^verbatim>\<open>/referral\<close>, \<^verbatim>\<open>/raffle\<close>, \<^verbatim>\<open>/shop\<close> and \<^verbatim>\<open>/myinfo\<close> (lines 254 to 415)
  read the user and the lists and send one message.\<close>

definition info_cmd :: "world \<Rightarrow> string \<Rightarrow> world \<times> reply list" where
  "info_cmd s tid =
     (if tid = [] then (s, [])
      else case getUserByTelegramId s tid of
        None \<Rightarrow> (s, [PleaseStartFirst])
      | Some usr \<Rightarrow> (s, [Listing]))"

text \<open>Entering a raffle: lines 483 to 508 of the message handler and lines 915 to 944 of
  \<^verbatim>\<open>handleRaffleEntry\<close> are the same statements. \<^verbatim>\<open>usr\<close> is the user object the handler holds.\<close>

definition raffleEntryFor :: "world \<Rightarrow> string \<Rightarrow> user \<Rightarrow> raffle \<Rightarrow> world \<times> reply list" where
  "raffleEntryFor s tid usr rf =
     (if coins usr < entryCost rf then (s, [NotEnoughCoins (entryCost rf)])
      else
        let s1 = updateUser s tid (\<lambda>v. v\<lparr>coins := coins usr - entryCost rf\<rparr>);
            s2 = enterRaffle s1 (rid rf) (uid usr) 1;
            s3 = updateRaffle s2 (rid rf) (\<lambda>r. r\<lparr>currentEntries := currentEntries rf + 1\<rparr>);
            s4 = createTransaction s3 (uid usr) RaffleEntryTx (- entryCost rf)
                   (''Raffle entry: '' @ title rf)
        in (s4, [RaffleEntered (title rf) (coins usr - entryCost rf)]))"

text \<open>Buying an item: lines 516 to 548 of the message handler and lines 955 to 994 of
  \<^verbatim>\<open>handleShopPurchase\<close> are the same statements.\<close>

definition purchaseFor :: "world \<Rightarrow> string \<Rightarrow> user \<Rightarrow> shop_item \<Rightarrow> world \<times> reply list" where
  "purchaseFor s tid usr it =
     (if coins usr < cost it then (s, [NotEnoughCoins (cost it)])
      else if (case stock it of None \<Rightarrow> False | Some k \<Rightarrow> k \<le> 0) then (s, [OutOfStock])
      else
        let s1 = updateUser s tid (\<lambda>v. v\<lparr>coins := coins usr - cost it\<rparr>);
            s2 = createPurchase s1 (uid usr) (iid it) 1 (cost it) ''completed'';
            s3 = (case stock it of
                    None \<Rightarrow> s2
                  | Some k \<Rightarrow> updateShopItem s2 (iid it) (\<lambda>x. x\<lparr>stock := Some (k - 1)\<rparr>));
            s4 = createTransaction s3 (uid usr) ShopPurchase (- cost it)
                   (''Shop purchase: '' @ itemName it)
        in (s4, [Purchased (itemName it) (coins usr - cost it)]))"

text \<open>The invitation-code branch of the message handler (lines 432 to 473), after the
  state was deleted.\<close>

definition redeemInvite :: "world \<Rightarrow> user \<Rightarrow> string \<Rightarrow> world \<times> reply list" where
  "redeemInvite s usr inp =
     (let inviteCode = toUpperCase (trim inp)
      in case getUserByReferralCode s inviteCode of
           None \<Rightarrow> (s, [InvalidInviteCode])
         | Some codeOwner \<Rightarrow>
             if uid codeOwner = uid usr then (s, [OwnInviteCode])
             else if truthy (referredBy usr) then (s, [AlreadyUsedInviteCode])
             else
               let referralReward = referralRewardAmount s;
                   s1 = fst (awardReward s (telegramId codeOwner) referralReward Referral
                          (''Referral bonus for inviting '' @ displayName usr));
                   r2 = awardReward s1 (telegramId usr) referralReward Referral
                          ''Bonus for using invitation code'';
                   s3 = updateUser (fst r2) (telegramId usr) (\<lambda>v. v\<lparr>referredBy := Some inviteCode\<rparr>)
               in case snd r2 of
                    None \<Rightarrow> (s3, [])
                  | Some updatedUser \<Rightarrow>
                      (s3, [InviteCodeAccepted inviteCode referralReward (coins updatedUser)]))"

text \<open>The numbered selection of the message handler (lines 475 to 549).\<close>

definition numberedSelection :: "world \<Rightarrow> string \<Rightarrow> user \<Rightarrow> string \<Rightarrow> world \<times> reply list" where
  "numberedSelection s tid usr inp =
     (case parseInt (trim inp) of
        None \<Rightarrow> (s, [])
      | Some number \<Rightarrow>
          let activeRaffles = getActiveRaffles s
          in if number > 0 \<and> number \<le> int (length activeRaffles)
             then raffleEntryFor s tid usr (activeRaffles ! nat (number - 1))
             else
               let items = getActiveShopItems s
               in if number > 0 \<and> number \<le> int (length items)
                  then purchaseFor s tid usr (items ! nat (number - 1))
                  else (s, []))"

text \<open>The message handler (lines 418 to 553).\<close>

definition message_handler :: "world \<Rightarrow> string \<Rightarrow> string \<Rightarrow> world \<times> reply list" where
  "message_handler s tid inp =
     (if tid = [] \<or> inp = [] \<or> startsWith inp ''/'' then (s, [])
      else case getUserByTelegramId s tid of
        None \<Rightarrow> (s, [])
      | Some usr \<Rightarrow>
          (case userStates s tid of
             None \<Rightarrow> numberedSelection s tid usr inp
           | Some st \<Rightarrow>
               if fst st = ''expecting_invite_code''
               then redeemInvite (s\<lparr>userStates := (userStates s)(tid := None)\<rparr>) usr inp
               else numberedSelection s tid usr inp))"

text \<open>The callback handlers (lines 613 to 1061). \<^verbatim>\<open>usr\<close> is the user object the
  callback-query handler read before it dispatched.\<close>

definition handleDailyCheckin :: "world \<Rightarrow> string \<Rightarrow> user \<Rightarrow> int \<Rightarrow> int \<Rightarrow> world \<times> reply list" where
  "handleDailyCheckin s tid usr now writeTime =
     (if \<not> canClaimDailyReward (hostOffset s) now (lastDailyReward usr)
      then (s, [AlreadyClaimedToday])
      else
        let dailyAmount = dailyRewardAmount s;
            r = awardReward s tid dailyAmount DailyReward ''Daily login reward'';
            s2 = updateUser (fst r) tid (\<lambda>v. v\<lparr>lastDailyReward := Some writeTime\<rparr>)
        in case snd r of
             None \<Rightarrow> (s2, [SorrySomethingWrong])
           | Some updatedUser \<Rightarrow> (s2, [DailyCheckinDone dailyAmount (coins updatedUser)]))"

definition handleEnterCode :: "world \<Rightarrow> string \<Rightarrow> int \<Rightarrow> world \<times> reply list" where
  "handleEnterCode s tid now =
     (s\<lparr>userStates := (userStates s)(tid \<mapsto> (''expecting_invite_code'', now))\<rparr>,
      [EnterCodePrompt (referralRewardAmount s)])"

definition handleRaffleEntry :: "world \<Rightarrow> string \<Rightarrow> user \<Rightarrow> int option \<Rightarrow> world \<times> reply list" where
  "handleRaffleEntry s tid usr raffleNo =
     (case getRaffleById s raffleNo of
        None \<Rightarrow> (s, [RaffleNotFound])
      | Some rf \<Rightarrow> raffleEntryFor s tid usr rf)"

definition handleShopPurchase :: "world \<Rightarrow> string \<Rightarrow> user \<Rightarrow> int option \<Rightarrow> world \<times> reply list" where
  "handleShopPurchase s tid usr itemNo =
     (case find (\<lambda>i. Some (int (iid i)) = itemNo) (getAllShopItems s) of
        None \<Rightarrow> (s, [ItemNotFound])
      | Some it \<Rightarrow> purchaseFor s tid usr it)"

definition handleBackToMenu :: "world \<Rightarrow> string \<Rightarrow> world \<times> reply list" where
  "handleBackToMenu s tid =
     (let s1 = s\<lparr>userStates := (userStates s)(tid := None)\<rparr>
      in case getUserByTelegramId s1 tid of
           None \<Rightarrow> (s1, [UserNotFound])
         | Some updatedUser \<Rightarrow> (s1, [MainMenu (coins updatedUser)]))"

definition handleMyInfo :: "world \<Rightarrow> string \<Rightarrow> world \<times> reply list" where
  "handleMyInfo s tid =
     (case getUserByTelegramId s tid of
        None \<Rightarrow> (s, [UserNotFound])
      | Some updatedUser \<Rightarrow> (s, [Listing]))"

text \<open>The switch of the callback-query handler (lines 571 to 606), entered with the user
  object \<^verbatim>\<open>usr\<close> that line 565 read.\<close>

definition callback_dispatch :: "world \<Rightarrow> string \<Rightarrow> user \<Rightarrow> string \<Rightarrow> int \<Rightarrow> int \<Rightarrow> world \<times> reply list" where
  "callback_dispatch s tid usr cdata now writeTime =
     (if cdata = ''daily_checkin'' then handleDailyCheckin s tid usr now writeTime
      else if cdata = ''view_raffles'' then (s, [Listing])
      else if cdata = ''view_shop'' then (s, [Listing])
      else if cdata = ''referral_link'' then (s, [Listing])
      else if cdata = ''my_info'' then handleMyInfo s tid
      else if cdata = ''enter_code'' then handleEnterCode s tid now
      else if cdata = ''back_to_menu'' then handleBackToMenu s tid
      else if startsWith cdata ''raffle_'' then handleRaffleEntry s tid usr (parseInt (splitSecond cdata))
      else if startsWith cdata ''shop_'' then handleShopPurchase s tid usr (parseInt (splitSecond cdata))
      else (s, []))"

text \<open>The callback-query handler (lines 556 to 611): it reads the user, then dispatches.\<close>

definition callback_query :: "world \<Rightarrow> string \<Rightarrow> string \<Rightarrow> int \<Rightarrow> int \<Rightarrow> world \<times> reply list" where
  "callback_query s tid cdata now writeTime =
     (if cdata = [] then (s, [])
      else case getUserByTelegramId s tid of
        None \<Rightarrow> (s, [PleaseStartFirst])
      | Some usr \<Rightarrow> callback_dispatch s tid usr cdata now writeTime)"

text \<open>
  An event is one run of one handler, and \<^verbatim>\<open>handle\<close> is that run when every awaited call
  resolves. One incoming text can start more than one handler: the patterns of
  \<^verbatim>\<open>onText\<close> are not anchored, and the message handler is called for every message, so a
  text such as \<^verbatim>\<open>1 /daily\<close> starts the \<^verbatim>\<open>/daily\<close> handler and the numbered selection. Each
  handler that is started is an event of its own. \<^verbatim>\<open>run\<close> lets the handlers of a list of
  events run one after the other: a handler starts when the one before it has returned.
  Handlers that overlap are taken up with the claims on concurrent requests, by handing
  \<^verbatim>\<open>callback_dispatch\<close> a user object that was read before another handler wrote.
\<close>

datatype event =
    Start string "string option" "string option" "string option" "string option" string
  | Daily string int int
  | Info string
  | Message string string
  | CallbackQuery string string int int

fun handle :: "world \<Rightarrow> event \<Rightarrow> world \<times> reply list" where
  "handle s (Start tid un fnm lnm code nano) = start_cmd s tid un fnm lnm code nano"
| "handle s (Daily tid now claimTime) = daily_cmd s tid now claimTime"
| "handle s (Info tid) = info_cmd s tid"
| "handle s (Message tid inp) = message_handler s tid inp"
| "handle s (CallbackQuery tid cdata now writeTime) = callback_query s tid cdata now writeTime"

fun run :: "world \<Rightarrow> event list \<Rightarrow> world" where
  "run s [] = s"
| "run s (e # es) = run (fst (handle s e)) es"

section \<open>Runs that end in the catch block\<close>

text \<open>
  The body of every handler is one \<^verbatim>\<open>try\<close> block (lines 113, 228, 426 and 564): each storage
  call in it is awaited, and the \<^verbatim>\<open>catch\<close> block logs the error (the commands and the
  callback-query handler also answer that something went wrong). So when an awaited call
  rejects, the handler stops there and the writes it made before stay. The writes of a
  run are listed here in the order of the source, each as a function of the state it is
  applied to; what they write is computed from what the handler read, as in the
  definitions above. A run that ends in the catch block leaves the state after the first
  \<^verbatim>\<open>k\<close> of its writes, for the \<^verbatim>\<open>k\<close> at which the call rejected.
\<close>

type_synonym storeWrite = "world \<Rightarrow> world"

definition applyWrites :: "storeWrite list \<Rightarrow> world \<Rightarrow> world" where
  "applyWrites ws s = foldl (\<lambda>t w. w t) s ws"

text \<open>Lines 489 to 505 and 923 to 939: the four awaited writes of a raffle entry.\<close>

definition raffleEntryWrites :: "string \<Rightarrow> user \<Rightarrow> raffle \<Rightarrow> storeWrite list" where
  "raffleEntryWrites tid usr rf =
     (if coins usr < entryCost rf then []
      else [\<lambda>t. updateUser t tid (\<lambda>v. v\<lparr>coins := coins usr - entryCost rf\<rparr>),
            \<lambda>t. enterRaffle t (rid rf) (uid usr) 1,
            \<lambda>t. updateRaffle t (rid rf) (\<lambda>r. r\<lparr>currentEntries := currentEntries rf + 1\<rparr>),
            \<lambda>t. createTransaction t (uid usr) RaffleEntryTx (- entryCost rf)
                  (''Raffle entry: '' @ title rf)])"

text \<open>Lines 527 to 545 and 971 to 989: the awaited writes of a purchase.\<close>

definition purchaseWrites :: "string \<Rightarrow> user \<Rightarrow> shop_item \<Rightarrow> storeWrite list" where
  "purchaseWrites tid usr it =
     (if coins usr < cost it then []
      else if (case stock it of None \<Rightarrow> False | Some k \<Rightarrow> k \<le> 0) then []
      else [\<lambda>t. updateUser t tid (\<lambda>v. v\<lparr>coins := coins usr - cost it\<rparr>),
            \<lambda>t. createPurchase t (uid usr) (iid it) 1 (cost it) ''completed'']
           @ (case stock it of
                None \<Rightarrow> []
              | Some k \<Rightarrow> [\<lambda>t. updateShopItem t (iid it) (\<lambda>x. x\<lparr>stock := Some (k - 1)\<rparr>)])
           @ [\<lambda>t. createTransaction t (uid usr) ShopPurchase (- cost it)
                    (''Shop purchase: '' @ itemName it)])"

text \<open>Lines 460 to 465 and 156 to 160: the two awards and the write of referredBy.\<close>

definition redeemWrites :: "world \<Rightarrow> user \<Rightarrow> string \<Rightarrow> storeWrite list" where
  "redeemWrites s usr inp =
     (let inviteCode = toUpperCase (trim inp)
      in case getUserByReferralCode s inviteCode of
           None \<Rightarrow> []
         | Some codeOwner \<Rightarrow>
             if uid codeOwner = uid usr then []
             else if truthy (referredBy usr) then []
             else
               let referralReward = referralRewardAmount s
               in [\<lambda>t. fst (awardReward t (telegramId codeOwner) referralReward Referral
                             (''Referral bonus for inviting '' @ displayName usr)),
                   \<lambda>t. fst (awardReward t (telegramId usr) referralReward Referral
                             ''Bonus for using invitation code''),
                   \<lambda>t. updateUser t (telegramId usr) (\<lambda>v. v\<lparr>referredBy := Some inviteCode\<rparr>)])"

definition startReferralWrites :: "world \<Rightarrow> user \<Rightarrow> string \<Rightarrow> storeWrite list" where
  "startReferralWrites s usr code =
     (case getUserByReferralCode s code of
        None \<Rightarrow> []
      | Some referrer \<Rightarrow>
          (let referralReward = referralRewardAmount s
           in [\<lambda>t. fst (awardReward t (telegramId referrer) referralReward Referral
                         (''Referral bonus for inviting '' @ displayName usr)),
               \<lambda>t. fst (awardReward t (telegramId usr) referralReward Referral
                         ''Welcome bonus for joining via referral''),
               \<lambda>t. updateUser t (telegramId usr) (\<lambda>v. v\<lparr>referredBy := Some code\<rparr>)]))"

text \<open>The \<^verbatim>\<open>/start\<close> handler: the row is created or its names are written back, then the
  referral block writes.\<close>

definition startWrites ::
  "world \<Rightarrow> string \<Rightarrow> string option \<Rightarrow> string option \<Rightarrow> string option \<Rightarrow> string option \<Rightarrow> string
     \<Rightarrow> storeWrite list" where
  "startWrites s tid fromUsername fromFirst fromLast refCode nano =
     (if tid = [] then []
      else
        let r1 = (case getUserByTelegramId s tid of
                    None \<Rightarrow>
                      createUser s tid (js_or fromUsername None) (js_or fromFirst None)
                        (js_or fromLast None) (generateReferralCode nano) (js_or refCode None)
                  | Some u \<Rightarrow> startSync s tid u fromUsername fromFirst fromLast);
            w1 = (case getUserByTelegramId s tid of
                    None \<Rightarrow>
                      [\<lambda>t. fst (createUser t tid (js_or fromUsername None) (js_or fromFirst None)
                                 (js_or fromLast None) (generateReferralCode nano)
                                 (js_or refCode None))]
                  | Some u \<Rightarrow>
                      (let un = js_or fromUsername (username u);
                           fnm = js_or fromFirst (firstName u);
                           lnm = js_or fromLast (lastName u)
                       in if un \<noteq> username u \<or> fnm \<noteq> firstName u \<or> lnm \<noteq> lastName u
                          then [\<lambda>t. updateUser t tid
                                       (\<lambda>v. v\<lparr>username := un, firstName := fnm, lastName := lnm\<rparr>)]
                          else []));
            usr = snd r1
        in w1 @ (case refCode of
                   None \<Rightarrow> []
                 | Some code \<Rightarrow>
                     if \<not> truthy (referredBy usr) \<and> code \<noteq> []
                     then startReferralWrites (fst r1) usr code
                     else []))"

definition dailyWrites :: "world \<Rightarrow> string \<Rightarrow> int \<Rightarrow> int \<Rightarrow> storeWrite list" where
  "dailyWrites s tid now claimTime =
     (if tid = [] then []
      else case getUserByTelegramId s tid of
        None \<Rightarrow> []
      | Some usr \<Rightarrow>
          if \<not> canClaimDailyReward (hostOffset s) now (lastDailyReward usr) then []
          else [\<lambda>t. fst (claimDaily t tid (dailyRewardAmount s) claimTime)])"

definition numberedWrites :: "world \<Rightarrow> string \<Rightarrow> user \<Rightarrow> string \<Rightarrow> storeWrite list" where
  "numberedWrites s tid usr inp =
     (case parseInt (trim inp) of
        None \<Rightarrow> []
      | Some number \<Rightarrow>
          let activeRaffles = getActiveRaffles s
          in if number > 0 \<and> number \<le> int (length activeRaffles)
             then raffleEntryWrites tid usr (activeRaffles ! nat (number - 1))
             else
               let items = getActiveShopItems s
               in if number > 0 \<and> number \<le> int (length items)
                  then purchaseWrites tid usr (items ! nat (number - 1))
                  else [])"

text \<open>The message handler: the invitation state is deleted (line 434, not awaited) before
  the code is looked up.\<close>

definition messageWrites :: "world \<Rightarrow> string \<Rightarrow> string \<Rightarrow> storeWrite list" where
  "messageWrites s tid inp =
     (if tid = [] \<or> inp = [] \<or> startsWith inp ''/'' then []
      else case getUserByTelegramId s tid of
        None \<Rightarrow> []
      | Some usr \<Rightarrow>
          (case userStates s tid of
             None \<Rightarrow> numberedWrites s tid usr inp
           | Some st \<Rightarrow>
               if fst st = ''expecting_invite_code''
               then (\<lambda>t. t\<lparr>userStates := (userStates t)(tid := None)\<rparr>)
                    # redeemWrites (s\<lparr>userStates := (userStates s)(tid := None)\<rparr>) usr inp
               else numberedWrites s tid usr inp))"

definition dailyCheckinWrites :: "world \<Rightarrow> string \<Rightarrow> user \<Rightarrow> int \<Rightarrow> int \<Rightarrow> storeWrite list" where
  "dailyCheckinWrites s tid usr now writeTime =
     (if \<not> canClaimDailyReward (hostOffset s) now (lastDailyReward usr) then []
      else [\<lambda>t. fst (awardReward t tid (dailyRewardAmount s) DailyReward ''Daily login reward''),
            \<lambda>t. updateUser t tid (\<lambda>v. v\<lparr>lastDailyReward := Some writeTime\<rparr>)])"

definition dispatchWrites :: "world \<Rightarrow> string \<Rightarrow> user \<Rightarrow> string \<Rightarrow> int \<Rightarrow> int \<Rightarrow> storeWrite list" where
  "dispatchWrites s tid usr cdata now writeTime =
     (if cdata = ''daily_checkin'' then dailyCheckinWrites s tid usr now writeTime
      else if cdata = ''view_raffles'' then []
      else if cdata = ''view_shop'' then []
      else if cdata = ''referral_link'' then []
      else if cdata = ''my_info'' then []
      else if cdata = ''enter_code''
        then [\<lambda>t. t\<lparr>userStates := (userStates t)(tid \<mapsto> (''expecting_invite_code'', now))\<rparr>]
      else if cdata = ''back_to_menu''
        then [\<lambda>t. t\<lparr>userStates := (userStates t)(tid := None)\<rparr>]
      else if startsWith cdata ''raffle_''
        then (case getRaffleById s (parseInt (splitSecond cdata)) of
                None \<Rightarrow> []
              | Some rf \<Rightarrow> raffleEntryWrites tid usr rf)
      else if startsWith cdata ''shop_''
        then (case find (\<lambda>i. Some (int (iid i)) = parseInt (splitSecond cdata)) (getAllShopItems s) of
                None \<Rightarrow> []
              | Some it \<Rightarrow> purchaseWrites tid usr it)
      else [])"

definition callbackWrites :: "world \<Rightarrow> string \<Rightarrow> string \<Rightarrow> int \<Rightarrow> int \<Rightarrow> storeWrite list" where
  "callbackWrites s tid cdata now writeTime =
     (if cdata = [] then []
      else case getUserByTelegramId s tid of
        None \<Rightarrow> []
      | Some usr \<Rightarrow> dispatchWrites s tid usr cdata now writeTime)"

fun writesOf :: "world \<Rightarrow> event \<Rightarrow> storeWrite list" where
  "writesOf s (Start tid un fnm lnm code nano) = startWrites s tid un fnm lnm code nano"
| "writesOf s (Daily tid now claimTime) = dailyWrites s tid now claimTime"
| "writesOf s (Info tid) = []"
| "writesOf s (Message tid inp) = messageWrites s tid inp"
| "writesOf s (CallbackQuery tid cdata now writeTime) = callbackWrites s tid cdata now writeTime"

text \<open>
  An attempt is a run of a handler that either completes or ends in the catch block after
  \<^verbatim>\<open>k\<close> of its writes (with \<^verbatim>\<open>k\<close> the number of all its writes when the call that rejects
  comes after the last of them). \<^verbatim>\<open>attemptState\<close> is the state the attempt leaves.
\<close>

datatype attempt = Completes event | RejectsAfter nat event

fun attemptState :: "world \<Rightarrow> attempt \<Rightarrow> world" where
  "attemptState s (Completes ev) = fst (handle s ev)"
| "attemptState s (RejectsAfter k ev) = applyWrites (take k (writesOf s ev)) s"

fun completes :: "attempt \<Rightarrow> bool" where
  "completes (Completes ev) = True"
| "completes (RejectsAfter k ev) = False"

fun runAttempts :: "world \<Rightarrow> attempt list \<Rightarrow> world" where
  "runAttempts s [] = s"
| "runAttempts s (a # as) = runAttempts (attemptState s a) as"

section \<open>Broadcast\<close>

text \<open>
  \<^verbatim>\<open>broadcastMessage\<close> (lines 1071 to 1096). Whether a send to a recipient resolves or rejects
  is the argument \<^verbatim>\<open>delivers\<close>; the list of active users is what
  \<^verbatim>\<open>storage.getActiveUsers()\<close> returned. The loop's effects are recorded as a trace: each
  call of \<^verbatim>\<open>bot.sendMessage\<close> and each awaited timer, in order.
\<close>

datatype bc_event = SendOk string | SendFailed string | Delay nat

datatype bc_error = BotNotInitialized

fun broadcast_loop ::
  "(string \<Rightarrow> bool) \<Rightarrow> user list \<Rightarrow> nat \<Rightarrow> nat \<Rightarrow> bc_event list \<Rightarrow> nat \<times> nat \<times> bc_event list" where
  "broadcast_loop delivers [] success failed tr = (success, failed, tr)"
| "broadcast_loop delivers (u # us) success failed tr =
     (if delivers (telegramId u)
      then broadcast_loop delivers us (success + 1) failed (tr @ [SendOk (telegramId u), Delay 50])
      else broadcast_loop delivers us success (failed + 1) (tr @ [SendFailed (telegramId u)]))"

definition broadcastMessage ::
  "bool \<Rightarrow> (string \<Rightarrow> bool) \<Rightarrow> user list \<Rightarrow> bc_error + nat \<times> nat \<times> bc_event list" where
  "broadcastMessage botReady delivers activeUsers =
     (if \<not> botReady then Inl BotNotInitialized
      else Inr (broadcast_loop delivers activeUsers 0 0 []))"

fun isSend :: "bc_event \<Rightarrow> bool" where
  "isSend (SendOk t) = True"
| "isSend (SendFailed t) = True"
| "isSend (Delay n) = False"

text \<open>The spec's words, "a bounded pacing delay between individual sends", as a check on
  a trace: no two calls of \<^verbatim>\<open>sendMessage\<close> stand next to each other.\<close>

fun pacedBetweenSends :: "bc_event list \<Rightarrow> bool" where
  "pacedBetweenSends (a # b # es) = ((\<not> isSend a \<or> \<not> isSend b) \<and> pacedBetweenSends (b # es))"
| "pacedBetweenSends es = True"

text \<open>What the loop leaves in the trace for one recipient.\<close>

definition sendTrace :: "(string \<Rightarrow> bool) \<Rightarrow> user \<Rightarrow> bc_event list" where
  "sendTrace delivers u =
     (if delivers (telegramId u) then [SendOk (telegramId u), Delay 50] else [SendFailed (telegramId u)])"

section \<open>The ledger\<close>

text \<open>The sum of the amounts of the transactions of the user with row id \<^verbatim>\<open>i\<close>.\<close>

definition balanceOf :: "transaction list \<Rightarrow> nat \<Rightarrow> int" where
  "balanceOf txs i = sum_list (map amount (filter (\<lambda>t. userId t = i) txs))"

text \<open>The storage's keys: telegram ids and row ids are unique, and row ids are handed out
  in order, so no transaction names a row id that is not yet in use.\<close>

definition keysOk :: "world \<Rightarrow> bool" where
  "keysOk s =
     (distinct (map telegramId (users s)) \<and> distinct (map uid (users s)) \<and>
      list_all (\<lambda>u. uid u < nextUserId s) (users s) \<and>
      list_all (\<lambda>t. userId t < nextUserId s) (transactions s))"

definition ledgerOk :: "world \<Rightarrow> bool" where
  "ledgerOk s = list_all (\<lambda>u. balanceOf (transactions s) (uid u) = coins u) (users s)"

text \<open>One state \<^verbatim>\<open>s'\<close> comes after another: the user rows of \<^verbatim>\<open>s\<close> are still there in
  the same places with the same row ids, and the transaction log of \<^verbatim>\<open>s\<close> is the beginning
  of the log of \<^verbatim>\<open>s'\<close>.\<close>

definition grows :: "world \<Rightarrow> world \<Rightarrow> bool" where
  "grows s s' =
     (take (length (users s)) (map uid (users s')) = map uid (users s) \<and>
      take (length (transactions s)) (transactions s') = transactions s)"

definition keeps :: "world \<Rightarrow> world \<Rightarrow> bool" where
  "keeps s s' = (keysOk s' \<and> ledgerOk s' \<and> grows s s')"

section \<open>Bare integers\<close>

text \<open>The spec's words "a bare integer \<^verbatim>\<open>n\<close>", for the numbered selection: a text of
  decimal digits and nothing else, and the number it writes.\<close>

definition isDigit :: "char \<Rightarrow> bool" where
  "isDigit c = (let n = (of_char c :: nat) in 48 \<le> n \<and> n \<le> 57)"

definition bareInteger :: "string \<Rightarrow> bool" where
  "bareInteger ds = (ds \<noteq> [] \<and> list_all isDigit ds)"

definition decimalValue :: "string \<Rightarrow> nat" where
  "decimalValue ds = foldl (\<lambda>a c. a * 10 + (of_char c - 48)) 0 ds"

section \<open>A concrete state\<close>

text \<open>
  A small state on which the theorems below are run. Ann (row 1, code ABCDEFGH) holds 10
  coins from one recorded reward; Bob (row 2) holds none and was never referred. The
  first raffle is inactive, ended and full; the second is open. The first item costs 10
  and has unlimited stock; the second costs 5 and its tracked stock is 0. The referral
  amount is 5, the daily amount is the default.
\<close>

definition ann :: user where
  "ann = \<lparr>uid = 1, telegramId = ''100'', username = Some ''ann'', firstName = None,
           lastName = None, referralCode = ''ABCDEFGH'', referredBy = None, coins = 10,
           streak = 0, lastDailyReward = None\<rparr>"

definition bob :: user where
  "bob = \<lparr>uid = 2, telegramId = ''200'', username = Some ''bob'', firstName = None,
           lastName = None, referralCode = ''IJKLMNOP'', referredBy = None, coins = 0,
           streak = 0, lastDailyReward = None\<rparr>"

definition closedRaffle :: raffle where
  "closedRaffle = \<lparr>rid = 1, title = ''car'', entryCost = 3, currentEntries = 1,
                    maxEntries = Some 1, endDate = 0, raffleActive = False\<rparr>"

definition openRaffle :: raffle where
  "openRaffle = \<lparr>rid = 2, title = ''bike'', entryCost = 4, currentEntries = 0,
                  maxEntries = None, endDate = 9000000, raffleActive = True\<rparr>"

definition giftItem :: shop_item where
  "giftItem = \<lparr>iid = 1, itemName = ''gift'', cost = 10, stock = None, itemActive = True\<rparr>"

definition mugItem :: shop_item where
  "mugItem = \<lparr>iid = 2, itemName = ''mug'', cost = 5, stock = Some 0, itemActive = True\<rparr>"

definition demoWorld :: world where
  "demoWorld =
     \<lparr>users = [ann, bob], nextUserId = 3,
      transactions = [\<lparr>userId = 1, ttype = DailyReward, amount = 10,
                       description = ''Daily login reward''\<rparr>],
      raffles = [closedRaffle, openRaffle], raffleEntries = [],
      shopItems = [giftItem, mugItem], purchases = [],
      daily_reward_amount = None, referral_reward_amount = Some 5,
      userStates = Map.empty, hostOffset = 0\<rparr>"

text \<open>A third raffle, which is active, ended at time 0 and holds as many entries as its
  maxEntries allows, and the concrete state with this raffle listed after the other
  two.\<close>

definition fullRaffle :: raffle where
  "fullRaffle = \<lparr>rid = 3, title = ''boat'', entryCost = 2, currentEntries = 1,
                  maxEntries = Some 1, endDate = 0, raffleActive = True\<rparr>"

definition raffleWorld :: world where
  "raffleWorld = demoWorld\<lparr>raffles := [closedRaffle, openRaffle, fullRaffle]\<rparr>"

text \<open>Bob asks for the invitation-code prompt, redeems Ann's code in lower case between
  blanks, and asks for the prompt again.\<close>

definition bobAsked :: world where
  "bobAsked = fst (handleEnterCode demoWorld ''200'' 7)"

definition bobReferred :: world where
  "bobReferred = fst (message_handler bobAsked ''200'' '' abcdefgh '')"

definition bobAskedAgain :: world where
  "bobAskedAgain = fst (handleEnterCode bobReferred ''200'' 9)"

text \<open>Two callbacks \<^verbatim>\<open>raffle_2\<close> of Ann whose handlers both read her row (10 coins) before
  either wrote: each dispatch runs with that same user object.\<close>

definition annEnteredTwice :: world where
  "annEnteredTwice =
     fst (callback_dispatch (fst (callback_dispatch demoWorld ''100'' ann ''raffle_2'' 1 1))
            ''100'' ann ''raffle_2'' 2 2)"

text \<open>A run of eight events on the concrete state: a new user starts with Ann's code, Bob
  redeems Ann's code, Ann claims by command, Bob claims by button, Ann enters the open
  raffle by number, buys the gift by button, and asks for the closed raffle, which she can
  no longer afford.\<close>

definition demoEvents :: "event list" where
  "demoEvents =
     [Start ''300'' (Some ''cy'') None None (Some ''ABCDEFGH'') ''qrstuvwx'',
      CallbackQuery ''200'' ''enter_code'' 5 5,
      Message ''200'' '' abcdefgh '',
      Daily ''100'' 1000 1001,
      CallbackQuery ''200'' ''daily_checkin'' 2000 2001,
      Message ''100'' ''1'',
      CallbackQuery ''100'' ''shop_1'' 3000 3000,
      CallbackQuery ''100'' ''raffle_1'' 4000 4000]"

section \<open>Storage lemmas\<close>

lemma find_tid_update:
  assumes "\<And>v. telegramId (f v) = telegramId v"
  shows "find (\<lambda>u. telegramId u = t) (map (\<lambda>u. if telegramId u = tid then f u else u) xs) =
           (if t = tid then map_option f (find (\<lambda>u. telegramId u = t) xs)
            else find (\<lambda>u. telegramId u = t) xs)"
  by (induction xs) (auto simp: assms)

lemma getUser_updateUser:
  assumes "\<And>v. telegramId (f v) = telegramId v"
  shows "getUserByTelegramId (updateUser s tid f) t =
           (if t = tid then map_option f (getUserByTelegramId s t) else getUserByTelegramId s t)"
  using find_tid_update [of f t tid "users s", OF assms]
  by (simp add: getUserByTelegramId_def updateUser_def)

lemma find_map_same:
  "(\<And>x. P (g x) = P x) \<Longrightarrow> find P (map g xs) = map_option g (find P xs)"
  by (induction xs) auto

lemma map_option_find_cong:
  "(\<And>x. P x \<Longrightarrow> f x = g x) \<Longrightarrow> map_option f (find P xs) = map_option g (find P xs)"
  by (induction xs) auto

lemma getRaffle_updateRaffle:
  assumes "\<And>v. rid (f v) = rid v"
  shows "getRaffleById (updateRaffle s i f) no =
           map_option (\<lambda>r. if rid r = i then f r else r) (getRaffleById s no)"
  unfolding getRaffleById_def updateRaffle_def
  by (simp add: find_map_same assms)

lemma userStates_awardReward: "userStates (fst (awardReward s tid amt ty d)) = userStates s"
  by (simp add: awardReward_def createTransaction_def updateUser_def split: option.splits)

lemma userStates_redeemInvite: "userStates (fst (redeemInvite s usr inp)) = userStates s"
  by (simp add: redeemInvite_def Let_def updateUser_def userStates_awardReward split: option.splits)

lemma userStates_startReferral: "userStates (fst (startReferral s usr code)) = userStates s"
  by (simp add: startReferral_def Let_def updateUser_def userStates_awardReward split: option.splits)

lemma userStates_start_cmd: "userStates (fst (start_cmd s tid a b c d e)) = userStates s"
  by (simp add: start_cmd_def startSync_def Let_def updateUser_def createUser_def
      userStates_startReferral split: option.splits)

lemma userStates_daily_cmd: "userStates (fst (daily_cmd s tid n1 n2)) = userStates s"
  by (simp add: daily_cmd_def Let_def claimDaily_def createTransaction_def updateUser_def
      split: option.splits)

section \<open>Shop purchases on an item without stock\<close>

text \<open>
  Claim C5, as the code has it. For an item whose tracked stock is 0 (or below), a purchase
  is always rejected and the state is left as it was: no debit, no Purchase row, no stock
  change, no Transaction. The rejection is \<^verbatim>\<open>OutOfStock\<close> only when the user can afford
  the item; a user with fewer coins than the cost is told so first, because the balance
  check stands before the stock check. This holds for the shared statements, for the
  button path (\<^verbatim>\<open>handleShopPurchase\<close>) and for the numbered path of the message handler.
\<close>

theorem zero_stock_purchase_rejected:
  assumes "stock it = Some k" and "k \<le> 0"
  shows "purchaseFor s tid usr it =
           (s, [if coins usr < cost it then NotEnoughCoins (cost it) else OutOfStock])
       \<and> (find (\<lambda>i. Some (int (iid i)) = itemNo) (getAllShopItems s) = Some it \<longrightarrow>
            handleShopPurchase s tid usr itemNo =
              (s, [if coins usr < cost it then NotEnoughCoins (cost it) else OutOfStock]))
       \<and> (parseInt (trim inp) = Some n \<and> \<not> (0 < n \<and> n \<le> int (length (getActiveRaffles s)))
            \<and> 0 < n \<and> n \<le> int (length (getActiveShopItems s))
            \<and> getActiveShopItems s ! nat (n - 1) = it \<longrightarrow>
            numberedSelection s tid usr inp =
              (s, [if coins usr < cost it then NotEnoughCoins (cost it) else OutOfStock]))"
  using assms
  by (auto simp add: purchaseFor_def handleShopPurchase_def numberedSelection_def Let_def)

text \<open>The theorem at the mug (stock 0, cost 5): Ann, who has 10 coins, is told it is out
  of stock on the button path; Bob, who has none, is told he lacks coins on the numbered
  path.\<close>

theorem zero_stock_purchase_rejected_witness:
  "handleShopPurchase demoWorld ''100'' ann (Some 2) = (demoWorld, [OutOfStock])
   \<and> numberedSelection demoWorld ''200'' bob ''2'' = (demoWorld, [NotEnoughCoins 5])"
proof -
  have h1: "stock mugItem = Some 0" by (simp add: mugItem_def)
  have h2: "find (\<lambda>i. Some (int (iid i)) = Some 2) (getAllShopItems demoWorld) = Some mugItem"
    by (simp add: getAllShopItems_def demoWorld_def giftItem_def mugItem_def)
  have h3: "parseInt (trim ''2'') = Some 2"
    by (simp add: parseInt_def trim_def isSpace_def digitOf_def digitsValue_def)
  have h4: "getActiveRaffles demoWorld = [openRaffle]"
    by (simp add: getActiveRaffles_def demoWorld_def closedRaffle_def openRaffle_def)
  have h5: "getActiveShopItems demoWorld = [giftItem, mugItem]"
    by (simp add: getActiveShopItems_def demoWorld_def giftItem_def mugItem_def)
  have a: "handleShopPurchase demoWorld ''100'' ann (Some 2) = (demoWorld, [OutOfStock])"
    using zero_stock_purchase_rejected [OF h1, of demoWorld "''100''" ann "Some 2" "''2''" 2] h2
    by (simp add: ann_def mugItem_def)
  have b: "numberedSelection demoWorld ''200'' bob ''2'' = (demoWorld, [NotEnoughCoins 5])"
    using zero_stock_purchase_rejected [OF h1, of demoWorld "''200''" bob "Some 2" "''2''" 2] h3 h4 h5
    by (simp add: bob_def mugItem_def)
  from a b show ?thesis by (rule conjI)
qed

text \<open>Claim C5 as stated fails: the mug's tracked stock is 0, Bob has fewer coins than
  its cost, and the purchase is not answered with \<^verbatim>\<open>OutOfStock\<close>.\<close>

theorem zero_stock_not_out_of_stock_counterexample:
  "stock mugItem = Some 0 \<and> coins bob < cost mugItem
   \<and> handleShopPurchase demoWorld ''200'' bob (Some 2) = (demoWorld, [NotEnoughCoins 5])
   \<and> snd (handleShopPurchase demoWorld ''200'' bob (Some 2)) \<noteq> [OutOfStock]"
  by (simp add: handleShopPurchase_def purchaseFor_def getAllShopItems_def demoWorld_def
      giftItem_def mugItem_def bob_def)

section \<open>Raffle entries\<close>

text \<open>
  Claim C6, as the code has it. Entering a raffle never fails with \<^verbatim>\<open>RaffleClosed\<close> for a
  raffle that is past its end time or at its maxEntries limit: the statements that enter
  a raffle test the balance and nothing else, on the button path and on the numbered
  path, and a raffle whose end time and maxEntries are changed to any other values is
  entered in the same way. When the user has fewer coins than the entry cost (or the
  button path does not find the raffle) the request is rejected and the state is left as
  it was: no debit, no RaffleEntry, no change of currentEntries, no Transaction.
  Otherwise the entry is applied: the balance becomes the held balance minus the cost,
  one RaffleEntry and one Transaction of minus the cost are appended, and currentEntries
  becomes the held count plus one. The numbered path enters the raffle that stands at the
  given place in the list \<^verbatim>\<open>storage.getActiveRaffles()\<close> returned; the button path looks the
  raffle up by the id in the button.
\<close>

theorem raffle_entry_checks_balance_only:
  "(coins usr < entryCost rf \<longrightarrow>
      raffleEntryFor s tid usr rf = (s, [NotEnoughCoins (entryCost rf)]))
   \<and> (entryCost rf \<le> coins usr \<longrightarrow>
        snd (raffleEntryFor s tid usr rf) = [RaffleEntered (title rf) (coins usr - entryCost rf)]
        \<and> getUserByTelegramId (fst (raffleEntryFor s tid usr rf)) tid =
            map_option (\<lambda>v. v\<lparr>coins := coins usr - entryCost rf\<rparr>) (getUserByTelegramId s tid)
        \<and> raffleEntries (fst (raffleEntryFor s tid usr rf)) =
            raffleEntries s @ [\<lparr>raffleId = rid rf, entryUserId = uid usr, entries = 1\<rparr>]
        \<and> getRaffleById (fst (raffleEntryFor s tid usr rf)) (Some (int (rid rf))) =
            map_option (\<lambda>r. r\<lparr>currentEntries := currentEntries rf + 1\<rparr>)
              (getRaffleById s (Some (int (rid rf))))
        \<and> transactions (fst (raffleEntryFor s tid usr rf)) =
            transactions s @ [\<lparr>userId = uid usr, ttype = RaffleEntryTx, amount = - entryCost rf,
                               description = ''Raffle entry: '' @ title rf\<rparr>])
   \<and> raffleEntryFor s tid usr (rf\<lparr>endDate := e, maxEntries := m\<rparr>) = raffleEntryFor s tid usr rf
   \<and> handleRaffleEntry s tid usr raffleNo =
        (case getRaffleById s raffleNo of
           None \<Rightarrow> (s, [RaffleNotFound])
         | Some found \<Rightarrow> raffleEntryFor s tid usr found)
   \<and> (parseInt (trim inp) = Some n \<and> 0 < n \<and> n \<le> int (length (getActiveRaffles s)) \<longrightarrow>
        numberedSelection s tid usr inp =
          raffleEntryFor s tid usr (getActiveRaffles s ! nat (n - 1)))"
proof -
  let ?f = "\<lambda>v. v\<lparr>coins := coins usr - entryCost rf\<rparr>"
  let ?g = "\<lambda>r. r\<lparr>currentEntries := currentEntries rf + 1\<rparr>"
  have a: "getUserByTelegramId (updateUser s tid ?f) tid = map_option ?f (getUserByTelegramId s tid)"
    by (simp add: getUser_updateUser)
  have b: "getRaffleById (updateRaffle s (rid rf) ?g) (Some (int (rid rf))) =
             map_option ?g (getRaffleById s (Some (int (rid rf))))"
  proof -
    have "map_option (\<lambda>r. if rid r = rid rf then ?g r else r) (getRaffleById s (Some (int (rid rf))))
            = map_option ?g (getRaffleById s (Some (int (rid rf))))"
      unfolding getRaffleById_def by (rule map_option_find_cong) simp
    then show ?thesis by (simp add: getRaffle_updateRaffle)
  qed
  have c: "raffleEntryFor s tid usr (rf\<lparr>endDate := e, maxEntries := m\<rparr>) = raffleEntryFor s tid usr rf"
    by (simp add: raffleEntryFor_def)
  have d: "parseInt (trim inp) = Some n \<and> 0 < n \<and> n \<le> int (length (getActiveRaffles s)) \<longrightarrow>
        numberedSelection s tid usr inp =
          raffleEntryFor s tid usr (getActiveRaffles s ! nat (n - 1))"
    by (simp add: numberedSelection_def Let_def)
  have m: "(coins usr < entryCost rf \<longrightarrow>
      raffleEntryFor s tid usr rf = (s, [NotEnoughCoins (entryCost rf)]))
   \<and> (entryCost rf \<le> coins usr \<longrightarrow>
        snd (raffleEntryFor s tid usr rf) = [RaffleEntered (title rf) (coins usr - entryCost rf)]
        \<and> getUserByTelegramId (fst (raffleEntryFor s tid usr rf)) tid =
            map_option (\<lambda>v. v\<lparr>coins := coins usr - entryCost rf\<rparr>) (getUserByTelegramId s tid)
        \<and> raffleEntries (fst (raffleEntryFor s tid usr rf)) =
            raffleEntries s @ [\<lparr>raffleId = rid rf, entryUserId = uid usr, entries = 1\<rparr>]
        \<and> getRaffleById (fst (raffleEntryFor s tid usr rf)) (Some (int (rid rf))) =
            map_option (\<lambda>r. r\<lparr>currentEntries := currentEntries rf + 1\<rparr>)
              (getRaffleById s (Some (int (rid rf))))
        \<and> transactions (fst (raffleEntryFor s tid usr rf)) =
            transactions s @ [\<lparr>userId = uid usr, ttype = RaffleEntryTx, amount = - entryCost rf,
                               description = ''Raffle entry: '' @ title rf\<rparr>])
   \<and> handleRaffleEntry s tid usr raffleNo =
        (case getRaffleById s raffleNo of
           None \<Rightarrow> (s, [RaffleNotFound])
         | Some found \<Rightarrow> raffleEntryFor s tid usr found)"
    using a b
    by (auto simp add: raffleEntryFor_def handleRaffleEntry_def Let_def getUserByTelegramId_def
        getRaffleById_def createTransaction_def updateRaffle_def enterRaffle_def updateUser_def)
  from m c d show ?thesis by blast
qed

text \<open>The theorem at the third raffle of \<^verbatim>\<open>raffleWorld\<close>, which is active, ended and full:
  Ann enters it on the button path and on the numbered path (it is the second of the
  active raffles), and Bob is rejected for his balance.\<close>

theorem raffle_entry_checks_balance_only_witness:
  "handleRaffleEntry raffleWorld ''100'' ann (Some 3) = raffleEntryFor raffleWorld ''100'' ann fullRaffle
   \<and> numberedSelection raffleWorld ''100'' ann ''2'' = raffleEntryFor raffleWorld ''100'' ann fullRaffle
   \<and> snd (raffleEntryFor raffleWorld ''100'' ann fullRaffle) = [RaffleEntered ''boat'' 8]
   \<and> map_option coins (getUserByTelegramId (fst (raffleEntryFor raffleWorld ''100'' ann fullRaffle)) ''100'') = Some 8
   \<and> raffleEntryFor raffleWorld ''200'' bob fullRaffle = (raffleWorld, [NotEnoughCoins 2])"
proof -
  have h1: "entryCost fullRaffle \<le> coins ann" by (simp add: fullRaffle_def ann_def)
  have h2: "coins bob < entryCost fullRaffle" by (simp add: fullRaffle_def bob_def)
  have h3: "getRaffleById raffleWorld (Some 3) = Some fullRaffle"
    by (simp add: getRaffleById_def raffleWorld_def closedRaffle_def openRaffle_def fullRaffle_def)
  have h4: "getUserByTelegramId raffleWorld ''100'' = Some ann"
    by (simp add: getUserByTelegramId_def raffleWorld_def demoWorld_def ann_def)
  have h5: "parseInt (trim ''2'') = Some 2"
    by (simp add: parseInt_def trim_def isSpace_def digitOf_def digitsValue_def)
  have h6: "getActiveRaffles raffleWorld = [openRaffle, fullRaffle]"
    by (simp add: getActiveRaffles_def raffleWorld_def closedRaffle_def openRaffle_def fullRaffle_def)
  note t1 = raffle_entry_checks_balance_only [where usr = ann and rf = fullRaffle and s = raffleWorld
      and tid = "''100''" and raffleNo = "Some 3" and inp = "''2''" and n = 2]
  note t2 = raffle_entry_checks_balance_only [where usr = bob and rf = fullRaffle and s = raffleWorld
      and tid = "''200''" and raffleNo = "Some 3" and inp = "''2''" and n = 2]
  have a: "handleRaffleEntry raffleWorld ''100'' ann (Some 3) = raffleEntryFor raffleWorld ''100'' ann fullRaffle"
    using t1 h3 by simp
  have n: "numberedSelection raffleWorld ''100'' ann ''2'' = raffleEntryFor raffleWorld ''100'' ann fullRaffle"
    using t1 h5 h6 by simp
  have b: "snd (raffleEntryFor raffleWorld ''100'' ann fullRaffle) = [RaffleEntered ''boat'' 8]"
    using t1 h1 by (simp add: fullRaffle_def ann_def)
  have c: "map_option coins (getUserByTelegramId (fst (raffleEntryFor raffleWorld ''100'' ann fullRaffle)) ''100'') = Some 8"
    using t1 h1 h4 by (simp add: fullRaffle_def ann_def)
  have d: "raffleEntryFor raffleWorld ''200'' bob fullRaffle = (raffleWorld, [NotEnoughCoins 2])"
    using t2 h2 by (simp add: fullRaffle_def)
  from a n b c d show ?thesis by blast
qed

text \<open>Claim C6 as stated fails: the third raffle of \<^verbatim>\<open>raffleWorld\<close> is active, ended at 0
  and at its maxEntries. The callback \<^verbatim>\<open>raffle_3\<close> at time 5 debits and enters Ann, and so
  does her message \<^verbatim>\<open>2\<close>, which selects the same raffle from the list of active raffles.\<close>

theorem ended_full_raffle_entered_counterexample:
  "raffleActive fullRaffle \<and> endDate fullRaffle < 5
   \<and> maxEntries fullRaffle = Some (currentEntries fullRaffle)
   \<and> getRaffleById raffleWorld (Some 3) = Some fullRaffle
   \<and> getActiveRaffles raffleWorld = [openRaffle, fullRaffle]
   \<and> snd (callback_query raffleWorld ''100'' ''raffle_3'' 5 5) = [RaffleEntered ''boat'' 8]
   \<and> map coins (users (fst (callback_query raffleWorld ''100'' ''raffle_3'' 5 5))) = [8, 0]
   \<and> length (raffleEntries (fst (callback_query raffleWorld ''100'' ''raffle_3'' 5 5))) = 1
   \<and> map currentEntries (raffles (fst (callback_query raffleWorld ''100'' ''raffle_3'' 5 5))) = [1, 0, 2]
   \<and> map amount (transactions (fst (callback_query raffleWorld ''100'' ''raffle_3'' 5 5))) = [10, - 2]
   \<and> snd (message_handler raffleWorld ''100'' ''2'') = [RaffleEntered ''boat'' 8]
   \<and> map coins (users (fst (message_handler raffleWorld ''100'' ''2''))) = [8, 0]
   \<and> length (raffleEntries (fst (message_handler raffleWorld ''100'' ''2''))) = 1
   \<and> map currentEntries (raffles (fst (message_handler raffleWorld ''100'' ''2''))) = [1, 0, 2]
   \<and> map amount (transactions (fst (message_handler raffleWorld ''100'' ''2''))) = [10, - 2]"
  by code_simp

section \<open>The invitation-code state\<close>

text \<open>
  Claim C8. For a registered user whose entry in \<^verbatim>\<open>userStates\<close> is
  \<^verbatim>\<open>expecting_invite_code\<close>, the message handler deletes the entry on any text message that
  is not empty and does not start with a slash, whatever the text and whatever the code
  lookup finds. A text that starts with a slash leaves the whole state alone; the command
  handlers never touch \<^verbatim>\<open>userStates\<close>; \<^verbatim>\<open>handleBackToMenu\<close>, which the callback
  \<^verbatim>\<open>back_to_menu\<close> runs, deletes the entry, and \<^verbatim>\<open>handleEnterCode\<close> is what sets it.
\<close>

theorem invite_state_consumed:
  "(userStates s tid = Some (''expecting_invite_code'', ts) \<and> getUserByTelegramId s tid = Some usr
      \<and> tid \<noteq> [] \<and> inp \<noteq> [] \<and> \<not> startsWith inp ''/'' \<longrightarrow>
      userStates (fst (message_handler s tid inp)) tid = None)
   \<and> (startsWith inp ''/'' \<longrightarrow> message_handler s tid inp = (s, []))
   \<and> userStates (fst (start_cmd s tid fromUsername fromFirst fromLast refCode nano)) = userStates s
   \<and> userStates (fst (daily_cmd s tid now claimTime)) = userStates s
   \<and> userStates (fst (info_cmd s tid)) = userStates s
   \<and> userStates (fst (handleBackToMenu s tid)) tid = None
   \<and> (getUserByTelegramId s tid = Some usr \<longrightarrow>
        userStates (fst (callback_query s tid ''back_to_menu'' now writeTime)) tid = None)
   \<and> userStates (fst (handleEnterCode s tid now)) tid = Some (''expecting_invite_code'', now)"
  by (simp add: message_handler_def userStates_redeemInvite userStates_start_cmd userStates_daily_cmd
      info_cmd_def handleBackToMenu_def handleEnterCode_def callback_query_def
      callback_dispatch_def Let_def split: option.splits)

text \<open>The theorem after Bob pressed "enter code" at time 7: a text that names no code and a
  text that names Ann's code both consume the state, and \<^verbatim>\<open>/daily\<close> does not.\<close>

theorem invite_state_consumed_witness:
  "userStates (fst (message_handler (fst (handleEnterCode demoWorld ''200'' 7)) ''200'' ''no such code'')) ''200'' = None
   \<and> userStates (fst (message_handler (fst (handleEnterCode demoWorld ''200'' 7)) ''200'' ''abcdefgh'')) ''200'' = None
   \<and> message_handler (fst (handleEnterCode demoWorld ''200'' 7)) ''200'' ''/daily'' = (fst (handleEnterCode demoWorld ''200'' 7), [])"
proof -
  let ?w = "fst (handleEnterCode demoWorld ''200'' 7)"
  have h1: "userStates ?w ''200'' = Some (''expecting_invite_code'', 7)"
    by (simp add: handleEnterCode_def)
  have h2: "getUserByTelegramId ?w ''200'' = Some bob"
    by (simp add: handleEnterCode_def getUserByTelegramId_def demoWorld_def ann_def bob_def)
  have h3: "\<not> startsWith ''no such code'' ''/''" "\<not> startsWith ''abcdefgh'' ''/''" "startsWith ''/daily'' ''/''"
    by (simp_all add: startsWith_def)
  have a: "userStates (fst (message_handler ?w ''200'' ''no such code'')) ''200'' = None"
    using invite_state_consumed [of ?w "''200''" 7 bob "''no such code''"] h1 h2 h3 by simp
  have b: "userStates (fst (message_handler ?w ''200'' ''abcdefgh'')) ''200'' = None"
    using invite_state_consumed [of ?w "''200''" 7 bob "''abcdefgh''"] h1 h2 h3 by simp
  have c: "message_handler ?w ''200'' ''/daily'' = (?w, [])"
    using invite_state_consumed [of ?w "''200''" 7 bob "''/daily''"] h3 by simp
  from a b c show ?thesis by blast
qed

section \<open>Numbered selection\<close>

lemma isDigit_digitOf: "isDigit c \<Longrightarrow> digitOf 10 c = Some (of_char c - 48)"
  by (auto simp: isDigit_def digitOf_def Let_def)

lemma isDigit_not_space: "isDigit c \<Longrightarrow> \<not> isSpace c"
  by (auto simp: isDigit_def isSpace_def Let_def)

lemma trim_no_outer_space:
  assumes "xs \<noteq> []" "\<not> isSpace (hd xs)" "\<not> isSpace (last xs)"
  shows "trim xs = xs"
proof -
  have a: "dropWhile isSpace xs = xs" using assms by (cases xs) auto
  have "rev xs \<noteq> []" "\<not> isSpace (hd (rev xs))" using assms by (simp_all add: hd_rev)
  then have b: "dropWhile isSpace (rev xs) = rev xs" by (cases "rev xs") auto
  show ?thesis by (simp add: trim_def a b)
qed

lemma digitsValue_decimal_aux:
  "list_all isDigit ds \<Longrightarrow>
   foldl (\<lambda>a c. a * 10 + (case digitOf 10 c of None \<Rightarrow> 0 | Some d \<Rightarrow> d)) k ds =
   foldl (\<lambda>a c. a * 10 + (of_char c - 48)) k ds"
  by (induction ds arbitrary: k) (auto simp: isDigit_digitOf)

lemma digitsValue_decimal: "list_all isDigit ds \<Longrightarrow> digitsValue 10 ds = decimalValue ds"
  by (simp add: digitsValue_def decimalValue_def digitsValue_decimal_aux)

lemma takeWhile_digits: "list_all isDigit ds \<Longrightarrow> takeWhile (\<lambda>c. digitOf 10 c \<noteq> None) ds = ds"
  by (induction ds) (auto simp: isDigit_digitOf)

lemma digits_plain:
  assumes "bareInteger ds"
  shows "take 1 ds \<noteq> ''-''" "take 1 ds \<noteq> ''+''" "take 2 ds \<noteq> ''0x''" "take 2 ds \<noteq> ''0X''"
        "dropWhile isSpace ds = ds" "\<not> startsWith ds ''/''"
proof -
  obtain c cs where ds: "ds = c # cs" and c: "isDigit c" and cs: "list_all isDigit cs"
    using assms by (cases ds) (auto simp: bareInteger_def)
  show "take 1 ds \<noteq> ''-''" "take 1 ds \<noteq> ''+''" "\<not> startsWith ds ''/''"
    using c by (auto simp: ds isDigit_def startsWith_def)
  show "dropWhile isSpace ds = ds" using isDigit_not_space [OF c] by (simp add: ds)
  show "take 2 ds \<noteq> ''0x''" "take 2 ds \<noteq> ''0X''"
    using cs by (cases cs; auto simp: ds isDigit_def)+
qed

lemma parseInt_bare:
  assumes "bareInteger ds"
  shows "parseInt ds = Some (int (decimalValue ds))"
proof -
  have all: "list_all isDigit ds" and ne: "ds \<noteq> []" using assms by (simp_all add: bareInteger_def)
  show ?thesis
    using digits_plain [OF assms] ne
    by (simp add: parseInt_def Let_def takeWhile_digits [OF all] digitsValue_decimal [OF all]
        del: not_None_eq)
qed

lemma parseInt_minus_bare:
  assumes "bareInteger ds"
  shows "parseInt (CHR ''-'' # ds) = Some (- int (decimalValue ds))"
proof -
  have all: "list_all isDigit ds" and ne: "ds \<noteq> []" using assms by (simp_all add: bareInteger_def)
  have sp: "\<not> isSpace (CHR ''-'')" by (simp add: isSpace_def)
  show ?thesis
    using digits_plain [OF assms] ne sp
    by (simp add: parseInt_def Let_def takeWhile_digits [OF all] digitsValue_decimal [OF all]
        del: not_None_eq)
qed

lemma bare_ends:
  assumes "bareInteger ds"
  shows "\<not> isSpace (hd ds)" "\<not> isSpace (last ds)"
proof -
  have "ds \<noteq> []" and all: "\<forall>c\<in>set ds. isDigit c"
    using assms by (simp_all add: bareInteger_def list_all_iff)
  then have "isDigit (hd ds)" "isDigit (last ds)" by simp_all
  then show "\<not> isSpace (hd ds)" "\<not> isSpace (last ds)" by (simp_all add: isDigit_not_space)
qed

lemma trim_bare: "bareInteger ds \<Longrightarrow> trim ds = ds"
  by (rule trim_no_outer_space) (simp_all add: bare_ends, simp add: bareInteger_def)

lemma trim_minus_bare:
  assumes "bareInteger ds"
  shows "trim (CHR ''-'' # ds) = CHR ''-'' # ds"
proof (rule trim_no_outer_space)
  show "CHR ''-'' # ds \<noteq> []" by simp
  show "\<not> isSpace (hd (CHR ''-'' # ds))" by (simp add: isSpace_def)
  have "ds \<noteq> []" using assms by (simp add: bareInteger_def)
  then show "\<not> isSpace (last (CHR ''-'' # ds))" using bare_ends(2) [OF assms] by simp
qed

lemma numberedSelection_bare:
  assumes "bareInteger ds"
  shows "numberedSelection s tid usr ds =
        (if 0 < int (decimalValue ds) \<and> int (decimalValue ds) \<le> int (length (getActiveRaffles s))
         then raffleEntryFor s tid usr (getActiveRaffles s ! nat (int (decimalValue ds) - 1))
         else if 0 < int (decimalValue ds) \<and> int (decimalValue ds) \<le> int (length (getActiveShopItems s))
         then purchaseFor s tid usr (getActiveShopItems s ! nat (int (decimalValue ds) - 1))
         else (s, []))"
  by (simp add: numberedSelection_def trim_bare [OF assms] parseInt_bare [OF assms] Let_def)

lemma numberedSelection_minus_bare:
  assumes "bareInteger ds"
  shows "numberedSelection s tid usr (CHR ''-'' # ds) = (s, [])"
  by (simp add: numberedSelection_def trim_minus_bare [OF assms] parseInt_minus_bare [OF assms] Let_def)

lemma message_handler_no_state:
  assumes "tid \<noteq> []" "inp \<noteq> []" "\<not> startsWith inp ''/''" "getUserByTelegramId s tid = Some usr"
    "map_option fst (userStates s tid) \<noteq> Some ''expecting_invite_code''"
  shows "message_handler s tid inp = numberedSelection s tid usr inp"
  using assms by (cases "userStates s tid") (auto simp: message_handler_def)

lemma message_handler_empty_lists:
  assumes "map_option fst (userStates s tid) \<noteq> Some ''expecting_invite_code''"
    "getActiveRaffles s = []" "getActiveShopItems s = []"
  shows "message_handler s tid inp = (s, [])"
  using assms
  by (cases "userStates s tid")
     (auto simp: message_handler_def numberedSelection_def Let_def split: option.splits)

text \<open>
  Claim C7. A registered user with no pending invitation-code state sends a text that is
  a bare integer \<^verbatim>\<open>n\<close>. If \<^verbatim>\<open>n\<close> is between 1 and the number of active raffles, the
  handler runs the raffle entry on the \<^verbatim>\<open>n\<close>-th active raffle; otherwise, if \<^verbatim>\<open>n\<close> is between
  1 and the number of active shop items, it runs the purchase on the \<^verbatim>\<open>n\<close>-th active item;
  otherwise it leaves the state as it was and sends nothing. A minus sign before the
  digits is always out of range. When both lists are empty every such text is ignored,
  whoever sends it.
\<close>

theorem bare_integer_routing:
  "(bareInteger ds \<and> tid \<noteq> [] \<and> getUserByTelegramId s tid = Some usr
      \<and> map_option fst (userStates s tid) \<noteq> Some ''expecting_invite_code'' \<longrightarrow>
      message_handler s tid ds =
        (if 0 < int (decimalValue ds) \<and> int (decimalValue ds) \<le> int (length (getActiveRaffles s))
         then raffleEntryFor s tid usr (getActiveRaffles s ! nat (int (decimalValue ds) - 1))
         else if 0 < int (decimalValue ds) \<and> int (decimalValue ds) \<le> int (length (getActiveShopItems s))
         then purchaseFor s tid usr (getActiveShopItems s ! nat (int (decimalValue ds) - 1))
         else (s, []))
      \<and> message_handler s tid (CHR ''-'' # ds) = (s, []))
   \<and> (bareInteger ds \<and> map_option fst (userStates s tid) \<noteq> Some ''expecting_invite_code''
        \<and> getActiveRaffles s = [] \<and> getActiveShopItems s = [] \<longrightarrow>
        message_handler s tid ds = (s, []) \<and> message_handler s tid (CHR ''-'' # ds) = (s, []))"
proof (intro conjI impI)
  assume h: "bareInteger ds \<and> tid \<noteq> [] \<and> getUserByTelegramId s tid = Some usr
      \<and> map_option fst (userStates s tid) \<noteq> Some ''expecting_invite_code''"
  then have b: "bareInteger ds" by simp
  have ne: "ds \<noteq> []" using b by (simp add: bareInteger_def)
  have m: "\<not> startsWith (CHR ''-'' # ds) ''/''" by (simp add: startsWith_def)
  show "message_handler s tid ds =
        (if 0 < int (decimalValue ds) \<and> int (decimalValue ds) \<le> int (length (getActiveRaffles s))
         then raffleEntryFor s tid usr (getActiveRaffles s ! nat (int (decimalValue ds) - 1))
         else if 0 < int (decimalValue ds) \<and> int (decimalValue ds) \<le> int (length (getActiveShopItems s))
         then purchaseFor s tid usr (getActiveShopItems s ! nat (int (decimalValue ds) - 1))
         else (s, []))"
    using h ne digits_plain(6) [OF b]
    by (simp add: message_handler_no_state [where usr = usr] numberedSelection_bare [OF b])
  show "message_handler s tid (CHR ''-'' # ds) = (s, [])"
    using h m
    by (simp add: message_handler_no_state [where usr = usr] numberedSelection_minus_bare [OF b])
next
  assume h: "bareInteger ds \<and> map_option fst (userStates s tid) \<noteq> Some ''expecting_invite_code''
        \<and> getActiveRaffles s = [] \<and> getActiveShopItems s = []"
  then show "message_handler s tid ds = (s, [])" "message_handler s tid (CHR ''-'' # ds) = (s, [])"
    by (simp_all add: message_handler_empty_lists)
qed

text \<open>The theorem in the concrete state, with one active raffle and two active items:
  Ann's 1 enters the open raffle, her 2 goes to the second shop item, her 3 and her -1 are
  ignored.\<close>

theorem bare_integer_routing_witness:
  "message_handler demoWorld ''100'' ''1'' = raffleEntryFor demoWorld ''100'' ann openRaffle
   \<and> message_handler demoWorld ''100'' ''2'' = purchaseFor demoWorld ''100'' ann mugItem
   \<and> message_handler demoWorld ''100'' ''3'' = (demoWorld, [])
   \<and> message_handler demoWorld ''100'' ''-1'' = (demoWorld, [])"
proof -
  have u: "''100'' \<noteq> []" "getUserByTelegramId demoWorld ''100'' = Some ann"
      "map_option fst (userStates demoWorld ''100'') \<noteq> Some ''expecting_invite_code''"
    by (simp_all add: getUserByTelegramId_def demoWorld_def ann_def)
  have d: "bareInteger ''1''" "bareInteger ''2''" "bareInteger ''3''"
    by (simp_all add: bareInteger_def isDigit_def)
  have v: "decimalValue ''1'' = 1" "decimalValue ''2'' = 2" "decimalValue ''3'' = 3"
    by (simp_all add: decimalValue_def)
  have r: "getActiveRaffles demoWorld = [openRaffle]"
    by (simp add: getActiveRaffles_def demoWorld_def closedRaffle_def openRaffle_def)
  have i: "getActiveShopItems demoWorld = [giftItem, mugItem]"
    by (simp add: getActiveShopItems_def demoWorld_def giftItem_def mugItem_def)
  have a: "message_handler demoWorld ''100'' ''1'' = raffleEntryFor demoWorld ''100'' ann openRaffle"
    using bare_integer_routing [of "''1''" "''100''" demoWorld ann] u d v r i by simp
  have b: "message_handler demoWorld ''100'' ''2'' = purchaseFor demoWorld ''100'' ann mugItem"
    using bare_integer_routing [of "''2''" "''100''" demoWorld ann] u d v r i by simp
  have c: "message_handler demoWorld ''100'' ''3'' = (demoWorld, [])"
    using bare_integer_routing [of "''3''" "''100''" demoWorld ann] u d v r i by simp
  have e: "message_handler demoWorld ''100'' ''-1'' = (demoWorld, [])"
    using bare_integer_routing [of "''1''" "''100''" demoWorld ann] u d by simp
  from a b c e show ?thesis by blast
qed

section \<open>Broadcast: counts and pacing\<close>

lemma broadcast_loop_eq:
  "broadcast_loop delivers us k f tr =
     (k + length (filter (\<lambda>u. delivers (telegramId u)) us),
      f + length (filter (\<lambda>u. \<not> delivers (telegramId u)) us),
      tr @ concat (map (sendTrace delivers) us))"
  by (induction us arbitrary: k f tr) (simp_all add: sendTrace_def)

lemma paced_after_delay: "pacedBetweenSends (Delay n # es) = pacedBetweenSends es"
  by (cases es) simp_all

lemma paced_all_delivered:
  "list_all (\<lambda>u. delivers (telegramId u)) us \<Longrightarrow>
   pacedBetweenSends (concat (map (sendTrace delivers) us))"
  by (induction us) (simp_all add: sendTrace_def paced_after_delay)

text \<open>
  What the loop does for every batch. With the bot initialised, \<^verbatim>\<open>broadcastMessage\<close> calls
  \<^verbatim>\<open>sendMessage\<close> once for every active user, in order; a send that resolves is counted as
  a success, a send that rejects is counted as failed in the \<^verbatim>\<open>catch\<close> block of that
  recipient, and the loop goes on either way. The two counts add up to the number of
  active users. When every send resolves, a delay stands
  between any two sends. Without a bot it throws.
\<close>

lemma broadcast_counts_and_traces:
  "broadcastMessage True delivers us =
     Inr (length (filter (\<lambda>u. delivers (telegramId u)) us),
          length (filter (\<lambda>u. \<not> delivers (telegramId u)) us),
          concat (map (sendTrace delivers) us))
   \<and> length (filter (\<lambda>u. delivers (telegramId u)) us)
       + length (filter (\<lambda>u. \<not> delivers (telegramId u)) us) = length us
   \<and> (list_all (\<lambda>u. delivers (telegramId u)) us \<longrightarrow>
        pacedBetweenSends (concat (map (sendTrace delivers) us)))
   \<and> broadcastMessage False delivers us = Inl BotNotInitialized"
  by (simp add: broadcastMessage_def broadcast_loop_eq sum_length_filter_compl paced_all_delivered)

lemma broadcast_two_recipients:
  "broadcastMessage True (\<lambda>t. t = ''100'') [ann, bob] =
     Inr (1, 1, [SendOk ''100'', Delay 50, SendFailed ''200''])
   \<and> broadcastMessage True (\<lambda>t. True) [ann, bob] =
     Inr (2, 0, [SendOk ''100'', Delay 50, SendOk ''200'', Delay 50])
   \<and> pacedBetweenSends [SendOk ''100'', Delay 50, SendOk ''200'', Delay 50]"
  by (simp add: broadcastMessage_def ann_def bob_def)

text \<open>
  Claim C9 at a batch whose first send rejects. The loop is written to pace the sends:
  the comment of line 1080 reads "Send message to each user with a small delay to avoid
  rate limiting", the comment of line 1087 "Small delay to avoid hitting rate limits".
  But the timer is awaited inside the \<^verbatim>\<open>try\<close> block, after \<^verbatim>\<open>success++\<close>, so a send that
  rejects jumps over it into the \<^verbatim>\<open>catch\<close> block. With Ann and Bob as the active users and the send
  to Ann rejecting, the counts are right (one success, one failure, two users), the batch
  is not aborted, and the send to Bob follows the send to Ann with no delay between the
  two.
\<close>

theorem broadcast_failed_send_not_paced:
  "broadcastMessage True (\<lambda>t. t = ''200'') [ann, bob] =
     Inr (1, 1, [SendFailed ''100'', SendOk ''200'', Delay 50])
   \<and> \<not> pacedBetweenSends [SendFailed ''100'', SendOk ''200'', Delay 50]"
  by (simp add: broadcastMessage_def ann_def bob_def)

section \<open>The ledger invariant\<close>

lemma take_prefix_trans:
  assumes "take (length a) b = a" "take (length b) c = b"
  shows "take (length a) c = a"
proof -
  have "length (take (length a) b) = length a" using assms(1) by simp
  then have "length a \<le> length b" by simp
  then have "take (length a) (take (length b) c) = take (length a) c" by (simp add: min_def)
  then show ?thesis using assms by simp
qed

lemma grows_refl: "grows s s"
  by (simp add: grows_def)

lemma grows_trans: "grows a b \<Longrightarrow> grows b c \<Longrightarrow> grows a c"
  unfolding grows_def
  using take_prefix_trans [of "map uid (users a)" "map uid (users b)" "map uid (users c)"]
        take_prefix_trans [of "transactions a" "transactions b" "transactions c"]
  by simp

lemma balanceOf_append: "balanceOf (xs @ ys) i = balanceOf xs i + balanceOf ys i"
  by (simp add: balanceOf_def)

lemma balanceOf_single: "balanceOf [t] i = (if userId t = i then amount t else 0)"
  by (simp add: balanceOf_def)

lemma balanceOf_fresh: "list_all (\<lambda>t. userId t < n) txs \<Longrightarrow> balanceOf txs n = 0"
  by (induction txs) (auto simp: balanceOf_def)

lemma getUser_mem: "getUserByTelegramId s tid = Some u \<Longrightarrow> u \<in> set (users s) \<and> telegramId u = tid"
  by (auto simp: getUserByTelegramId_def find_Some_iff)

lemma getUser_None: "getUserByTelegramId s tid = None \<Longrightarrow> tid \<notin> set (map telegramId (users s))"
  by (auto simp: getUserByTelegramId_def find_None_iff)

lemma distinct_key_unique:
  "distinct (map k xs) \<Longrightarrow> u \<in> set xs \<Longrightarrow> v \<in> set xs \<Longrightarrow> k u = k v \<Longrightarrow> u = v"
  by (simp add: distinct_map inj_on_def)

lemma uid_bound_map:
  "list_all (\<lambda>u. uid u < n) xs = (\<forall>i\<in>set (map uid xs). i < n)"
  by (auto simp: list_all_iff)

lemma ledger_step:
  assumes k: "keysOk s" and l: "ledgerOk s" and g: "getUserByTelegramId s tid = Some u"
    and us: "users s' = map (\<lambda>v. if telegramId v = tid then f v else v) (users s)"
    and ts: "transactions s' = transactions s @ [t]"
    and nx: "nextUserId s' = nextUserId s"
    and t: "userId t = uid u" "amount t = coins (f u) - coins u"
    and f: "\<And>v. telegramId (f v) = telegramId v" "\<And>v. uid (f v) = uid v"
  shows "keysOk s' \<and> ledgerOk s' \<and> grows s s'"
proof -
  let ?g = "\<lambda>v. if telegramId v = tid then f v else v"
  have um: "u \<in> set (users s)" and ut: "telegramId u = tid" using getUser_mem [OF g] by simp_all
  have dt: "distinct (map telegramId (users s))" and du: "distinct (map uid (users s))"
    and lu: "list_all (\<lambda>u. uid u < nextUserId s) (users s)"
    and lt: "list_all (\<lambda>t. userId t < nextUserId s) (transactions s)"
    using k by (simp_all add: keysOk_def)
  have mt: "map telegramId (users s') = map telegramId (users s)" by (simp add: us f)
  have mu: "map uid (users s') = map uid (users s)" by (simp add: us f)
  have "uid u < nextUserId s" using lu um by (simp add: list_all_iff)
  then have k': "keysOk s'"
    using dt du lu lt unfolding keysOk_def uid_bound_map mt mu nx ts
    by (simp add: t)
  have l': "ledgerOk s'"
    unfolding ledgerOk_def list_all_iff
  proof
    fix w assume "w \<in> set (users s')"
    then obtain v where v: "v \<in> set (users s)" and w: "w = ?g v" by (auto simp: us)
    have bv: "balanceOf (transactions s) (uid v) = coins v"
      using l v by (simp add: ledgerOk_def list_all_iff)
    show "balanceOf (transactions s') (uid w) = coins w"
    proof (cases "telegramId v = tid")
      case True
      then have "v = u" using distinct_key_unique [OF dt v um] ut by simp
      then show ?thesis using bv ut by (simp add: w ts balanceOf_append balanceOf_single t f)
    next
      case False
      then have "v \<noteq> u" using ut by auto
      then have "uid v \<noteq> uid u" using distinct_key_unique [OF du v um] by auto
      then show ?thesis using bv False by (simp add: w ts balanceOf_append balanceOf_single t)
    qed
  qed
  have "grows s s'" by (simp add: grows_def mu ts)
  with k' l' show ?thesis by simp
qed

lemma ledger_frame:
  assumes k: "keysOk s" and l: "ledgerOk s"
    and us: "users s' = map (\<lambda>v. if telegramId v = tid then f v else v) (users s)"
    and ts: "transactions s' = transactions s"
    and nx: "nextUserId s' = nextUserId s"
    and f: "\<And>v. telegramId (f v) = telegramId v" "\<And>v. uid (f v) = uid v" "\<And>v. coins (f v) = coins v"
  shows "keysOk s' \<and> ledgerOk s' \<and> grows s s'"
proof -
  have mt: "map telegramId (users s') = map telegramId (users s)" by (simp add: us f)
  have mu: "map uid (users s') = map uid (users s)" by (simp add: us f)
  have k': "keysOk s'"
    using k unfolding keysOk_def uid_bound_map mt mu nx ts by simp
  have l': "ledgerOk s'"
    using l unfolding ledgerOk_def list_all_iff ts by (auto simp: us f)
  have "grows s s'" by (simp add: grows_def mu ts)
  with k' l' show ?thesis by simp
qed

lemma ledger_same:
  assumes "keysOk s" "ledgerOk s" "users s' = users s" "transactions s' = transactions s"
    "nextUserId s' = nextUserId s"
  shows "keysOk s' \<and> ledgerOk s' \<and> grows s s'"
  using assms by (simp add: keysOk_def ledgerOk_def grows_def)

lemma ledger_createUser:
  assumes k: "keysOk s" and l: "ledgerOk s" and g: "getUserByTelegramId s tid = None"
  shows "keysOk (fst (createUser s tid un fnm lnm code refBy))
       \<and> ledgerOk (fst (createUser s tid un fnm lnm code refBy))
       \<and> grows s (fst (createUser s tid un fnm lnm code refBy))"
proof -
  have fresh: "tid \<notin> set (map telegramId (users s))" using getUser_None [OF g] .
  have lu: "list_all (\<lambda>u. uid u < nextUserId s) (users s)"
    and lt: "list_all (\<lambda>t. userId t < nextUserId s) (transactions s)"
    using k by (simp_all add: keysOk_def)
  have nu: "nextUserId s \<notin> set (map uid (users s))" using lu by (auto simp: list_all_iff)
  have k': "keysOk (fst (createUser s tid un fnm lnm code refBy))"
    using k fresh nu by (auto simp: keysOk_def createUser_def Let_def list_all_iff less_Suc_eq)
  have l': "ledgerOk (fst (createUser s tid un fnm lnm code refBy))"
    using l balanceOf_fresh [OF lt] by (simp add: ledgerOk_def createUser_def Let_def)
  have "grows s (fst (createUser s tid un fnm lnm code refBy))"
    by (simp add: grows_def createUser_def Let_def)
  with k' l' show ?thesis by simp
qed

lemma ledger_awardReward:
  assumes "keysOk s" "ledgerOk s"
  shows "keysOk (fst (awardReward s tid amt ty d)) \<and> ledgerOk (fst (awardReward s tid amt ty d))
       \<and> grows s (fst (awardReward s tid amt ty d))"
proof (cases "getUserByTelegramId s tid")
  case None
  then show ?thesis using assms by (simp add: awardReward_def grows_refl)
next
  case (Some u)
  show ?thesis
    using ledger_step [OF assms Some, where f = "\<lambda>v. v\<lparr>coins := coins v + amt\<rparr>"
        and t = "\<lparr>userId = uid u, ttype = ty, amount = amt, description = d\<rparr>"
        and s' = "fst (awardReward s tid amt ty d)"]
    by (simp add: awardReward_def Some createTransaction_def updateUser_def)
qed

lemma ledger_claimDaily:
  assumes "keysOk s" "ledgerOk s"
  shows "keysOk (fst (claimDaily s tid amt now)) \<and> ledgerOk (fst (claimDaily s tid amt now))
       \<and> grows s (fst (claimDaily s tid amt now))"
proof (cases "getUserByTelegramId s tid")
  case None
  then show ?thesis using assms by (simp add: claimDaily_def grows_refl)
next
  case (Some u)
  show ?thesis
    using ledger_step [OF assms Some,
        where f = "\<lambda>v. v\<lparr>coins := coins v + amt, streak := streak v + 1, lastDailyReward := Some now\<rparr>"
        and t = "\<lparr>userId = uid u, ttype = DailyReward, amount = amt, description = ''Daily login reward''\<rparr>"
        and s' = "fst (claimDaily s tid amt now)"]
    by (simp add: claimDaily_def Some createTransaction_def updateUser_def)
qed

lemma ledger_updateUser:
  assumes "keysOk s" "ledgerOk s"
    "\<And>v. telegramId (f v) = telegramId v" "\<And>v. uid (f v) = uid v" "\<And>v. coins (f v) = coins v"
  shows "keysOk (updateUser s tid f) \<and> ledgerOk (updateUser s tid f) \<and> grows s (updateUser s tid f)"
  using ledger_frame [OF assms(1,2), where s' = "updateUser s tid f" and f = f and tid = tid] assms(3-5)
  by (simp add: updateUser_def)

lemma keeps_trans: "keeps a b \<Longrightarrow> keeps b c \<Longrightarrow> keeps a c"
  by (auto simp: keeps_def intro: grows_trans)

lemma keeps_refl: "keysOk s \<Longrightarrow> ledgerOk s \<Longrightarrow> keeps s s"
  by (simp add: keeps_def grows_refl)

lemma keeps_same:
  assumes "keysOk s" "ledgerOk s" "users s' = users s" "transactions s' = transactions s"
    "nextUserId s' = nextUserId s"
  shows "keeps s s'"
  using ledger_same [OF assms] by (simp add: keeps_def)

lemma keeps_awardReward:
  "keysOk s \<Longrightarrow> ledgerOk s \<Longrightarrow> keeps s (fst (awardReward s tid amt ty d))"
  using ledger_awardReward by (simp add: keeps_def)

lemma keeps_claimDaily:
  "keysOk s \<Longrightarrow> ledgerOk s \<Longrightarrow> keeps s (fst (claimDaily s tid amt now))"
  using ledger_claimDaily by (simp add: keeps_def)

lemma keeps_updateUser:
  assumes "keysOk s" "ledgerOk s"
    "\<And>v. telegramId (f v) = telegramId v" "\<And>v. uid (f v) = uid v" "\<And>v. coins (f v) = coins v"
  shows "keeps s (updateUser s tid f)"
  using ledger_updateUser [OF assms] by (simp add: keeps_def)

lemma keeps_createUser:
  assumes "keysOk s" "ledgerOk s" "getUserByTelegramId s tid = None"
  shows "keeps s (fst (createUser s tid un fnm lnm code refBy))"
  using ledger_createUser [OF assms] by (simp add: keeps_def)

lemma keeps_reward_pair:
  assumes k: "keysOk s" and l: "ledgerOk s"
    and f: "\<And>v. telegramId (f v) = telegramId v" "\<And>v. uid (f v) = uid v" "\<And>v. coins (f v) = coins v"
  shows "keeps s (updateUser (fst (awardReward (fst (awardReward s t1 amt ty d1)) t2 amt ty d2)) t3 f)"
proof -
  let ?s1 = "fst (awardReward s t1 amt ty d1)"
  let ?s2 = "fst (awardReward ?s1 t2 amt ty d2)"
  have a: "keeps s ?s1" using k l by (rule keeps_awardReward)
  have i1: "keysOk ?s1" "ledgerOk ?s1" using a by (simp_all add: keeps_def)
  have b: "keeps ?s1 ?s2" using i1 by (rule keeps_awardReward)
  have i2: "keysOk ?s2" "ledgerOk ?s2" using b by (simp_all add: keeps_def)
  have c: "keeps ?s2 (updateUser ?s2 t3 f)" using i2 f by (rule keeps_updateUser)
  from a b c show ?thesis by (blast intro: keeps_trans)
qed

lemma keeps_redeemInvite:
  assumes "keysOk s" "ledgerOk s"
  shows "keeps s (fst (redeemInvite s usr inp))"
  using assms
  by (auto simp: redeemInvite_def Let_def keeps_refl keeps_reward_pair split: option.splits)

lemma keeps_startReferral:
  assumes "keysOk s" "ledgerOk s"
  shows "keeps s (fst (startReferral s usr code))"
  using assms
  by (auto simp: startReferral_def Let_def keeps_refl keeps_reward_pair split: option.splits)

lemma keeps_startSync:
  assumes "keysOk s" "ledgerOk s"
  shows "keeps s (fst (startSync s tid u a b c))"
  using assms by (auto simp: startSync_def Let_def keeps_refl keeps_updateUser)

lemma keeps_start_cmd:
  assumes "keysOk s" "ledgerOk s"
  shows "keeps s (fst (start_cmd s tid a b c d e))"
proof (cases "tid = []")
  case True
  then show ?thesis using assms by (simp add: start_cmd_def keeps_refl)
next
  case False
  let ?r1 = "(case getUserByTelegramId s tid of
                    None \<Rightarrow>
                      createUser s tid (js_or a None) (js_or b None)
                        (js_or c None) (generateReferralCode e) (js_or d None)
                  | Some u \<Rightarrow> startSync s tid u a b c)"
  have k1: "keeps s (fst ?r1)"
    using assms by (auto simp: keeps_createUser keeps_startSync split: option.splits)
  then have i1: "keysOk (fst ?r1)" "ledgerOk (fst ?r1)" by (simp_all add: keeps_def)
  have k2: "\<And>code. keeps (fst ?r1) (fst (startReferral (fst ?r1) (snd ?r1) code))"
    using i1 by (rule keeps_startReferral)
  have "keeps (fst ?r1) (fst (start_cmd s tid a b c d e))"
    using False i1 k2
    by (auto simp: start_cmd_def Let_def keeps_refl split: option.splits)
  with k1 show ?thesis by (rule keeps_trans)
qed

lemma keeps_step:
  assumes k: "keysOk s" and l: "ledgerOk s" and g: "getUserByTelegramId s tid = Some u"
    and us: "users s' = map (\<lambda>v. if telegramId v = tid then f v else v) (users s)"
    and ts: "transactions s' = transactions s @ [t]"
    and nx: "nextUserId s' = nextUserId s"
    and t: "userId t = uid u" "amount t = coins (f u) - coins u"
    and f: "\<And>v. telegramId (f v) = telegramId v" "\<And>v. uid (f v) = uid v"
  shows "keeps s s'"
  using ledger_step [OF k l g us ts nx t f] by (simp add: keeps_def)

lemma keeps_daily_cmd:
  assumes "keysOk s" "ledgerOk s"
  shows "keeps s (fst (daily_cmd s tid now claimTime))"
  using assms
  by (auto simp: daily_cmd_def Let_def keeps_refl keeps_claimDaily split: option.splits)

lemma keeps_raffleEntryFor:
  assumes "keysOk s" "ledgerOk s" "getUserByTelegramId s tid = Some usr"
  shows "keeps s (fst (raffleEntryFor s tid usr rf))"
proof (cases "coins usr < entryCost rf")
  case True
  then show ?thesis using assms by (simp add: raffleEntryFor_def keeps_refl)
next
  case False
  show ?thesis
    by (rule keeps_step [OF assms, where f = "\<lambda>v. v\<lparr>coins := coins usr - entryCost rf\<rparr>"
          and t = "\<lparr>userId = uid usr, ttype = RaffleEntryTx, amount = - entryCost rf,
                    description = ''Raffle entry: '' @ title rf\<rparr>"])
       (simp_all add: False raffleEntryFor_def Let_def createTransaction_def updateRaffle_def
          enterRaffle_def updateUser_def)
qed

lemma keeps_purchaseFor:
  assumes "keysOk s" "ledgerOk s" "getUserByTelegramId s tid = Some usr"
  shows "keeps s (fst (purchaseFor s tid usr it))"
proof (cases "coins usr < cost it \<or> (case stock it of None \<Rightarrow> False | Some k \<Rightarrow> k \<le> 0)")
  case True
  then show ?thesis using assms by (auto simp: purchaseFor_def keeps_refl)
next
  case False
  show ?thesis
    by (rule keeps_step [OF assms, where f = "\<lambda>v. v\<lparr>coins := coins usr - cost it\<rparr>"
          and t = "\<lparr>userId = uid usr, ttype = ShopPurchase, amount = - cost it,
                    description = ''Shop purchase: '' @ itemName it\<rparr>"])
       (use False in \<open>auto simp: purchaseFor_def Let_def createTransaction_def updateShopItem_def
          createPurchase_def updateUser_def split: option.splits\<close>)
qed

lemma keeps_numberedSelection:
  assumes "keysOk s" "ledgerOk s" "getUserByTelegramId s tid = Some usr"
  shows "keeps s (fst (numberedSelection s tid usr inp))"
  using assms
  by (auto simp: numberedSelection_def Let_def keeps_refl keeps_raffleEntryFor keeps_purchaseFor
      split: option.splits)

lemma keeps_message_handler:
  assumes k: "keysOk s" and l: "ledgerOk s"
  shows "keeps s (fst (message_handler s tid inp))"
proof -
  let ?s0 = "s\<lparr>userStates := (userStates s)(tid := None)\<rparr>"
  have a: "keeps s ?s0" using k l by (rule keeps_same) simp_all
  then have i0: "keysOk ?s0" "ledgerOk ?s0" by (simp_all add: keeps_def)
  have b: "\<And>usr. keeps s (fst (redeemInvite ?s0 usr inp))"
    using a keeps_redeemInvite [OF i0] by (rule keeps_trans)
  show ?thesis
    using k l b
    by (auto simp: message_handler_def keeps_refl keeps_numberedSelection split: option.splits)
qed

lemma keeps_handleDailyCheckin:
  assumes k: "keysOk s" and l: "ledgerOk s"
  shows "keeps s (fst (handleDailyCheckin s tid usr now writeTime))"
proof (cases "canClaimDailyReward (hostOffset s) now (lastDailyReward usr)")
  case False
  then show ?thesis using k l by (simp add: handleDailyCheckin_def keeps_refl)
next
  case True
  let ?s1 = "fst (awardReward s tid (dailyRewardAmount s) DailyReward ''Daily login reward'')"
  have a: "keeps s ?s1" using k l by (rule keeps_awardReward)
  then have i1: "keysOk ?s1" "ledgerOk ?s1" by (simp_all add: keeps_def)
  have b: "keeps ?s1 (updateUser ?s1 tid (\<lambda>v. v\<lparr>lastDailyReward := Some writeTime\<rparr>))"
    using i1 by (rule keeps_updateUser) simp_all
  have "keeps s (updateUser ?s1 tid (\<lambda>v. v\<lparr>lastDailyReward := Some writeTime\<rparr>))"
    using a b by (rule keeps_trans)
  then show ?thesis
    using True by (auto simp: handleDailyCheckin_def Let_def split: option.splits)
qed

lemma keeps_callback_dispatch:
  assumes k: "keysOk s" and l: "ledgerOk s" and g: "getUserByTelegramId s tid = Some usr"
  shows "keeps s (fst (callback_dispatch s tid usr cdata now writeTime))"
proof -
  have e: "keeps s (fst (handleEnterCode s tid now))"
    using k l by (intro keeps_same) (simp_all add: handleEnterCode_def)
  have b: "keeps s (fst (handleBackToMenu s tid))"
    using k l by (intro keeps_same) (simp_all add: handleBackToMenu_def Let_def split: option.splits)
  have m: "keeps s (fst (handleMyInfo s tid))"
    using k l by (simp add: handleMyInfo_def keeps_refl split: option.splits)
  have r: "\<And>no. keeps s (fst (handleRaffleEntry s tid usr no))"
    using k l g by (simp add: handleRaffleEntry_def keeps_refl keeps_raffleEntryFor split: option.splits)
  have p: "\<And>no. keeps s (fst (handleShopPurchase s tid usr no))"
    using k l g by (simp add: handleShopPurchase_def keeps_refl keeps_purchaseFor split: option.splits)
  show ?thesis
    using k l e b m r p
    by (simp add: callback_dispatch_def keeps_refl keeps_handleDailyCheckin)
qed

lemma keeps_handle:
  assumes k: "keysOk s" and l: "ledgerOk s"
  shows "keeps s (fst (handle s ev))"
proof (cases ev)
  case (Start tid un fnm lnm code nano)
  then show ?thesis using k l by (simp add: keeps_start_cmd)
next
  case (Daily tid now claimTime)
  then show ?thesis using k l by (simp add: keeps_daily_cmd)
next
  case (Info tid)
  then show ?thesis using k l by (simp add: info_cmd_def keeps_refl split: option.splits)
next
  case (Message tid inp)
  then show ?thesis using k l by (simp add: keeps_message_handler)
next
  case (CallbackQuery tid cdata now writeTime)
  then show ?thesis
    using k l
    by (simp add: callback_query_def keeps_refl keeps_callback_dispatch split: option.splits)
qed

lemma keeps_run:
  assumes "keysOk s" "ledgerOk s"
  shows "keeps s (run s evs)"
  using assms
proof (induction evs arbitrary: s)
  case Nil
  then show ?case by (simp add: keeps_refl)
next
  case (Cons e es)
  have a: "keeps s (fst (handle s e))" using Cons.prems by (rule keeps_handle)
  then have "keysOk (fst (handle s e))" "ledgerOk (fst (handle s e))" by (simp_all add: keeps_def)
  then have "keeps (fst (handle s e)) (run (fst (handle s e)) es)" by (rule Cons.IH)
  with a show ?case by (simp add: keeps_trans)
qed

lemma grows_balance:
  assumes l: "ledgerOk s" and l': "ledgerOk s'" and g: "grows s s'" and i: "i < length (users s)"
  shows "i < length (users s')"
    and "uid (users s' ! i) = uid (users s ! i)"
    and "coins (users s' ! i) = coins (users s ! i)
           + balanceOf (drop (length (transactions s)) (transactions s')) (uid (users s ! i))"
proof -
  have tk: "take (length (users s)) (map uid (users s')) = map uid (users s)"
    and tt: "take (length (transactions s)) (transactions s') = transactions s"
    using g by (simp_all add: grows_def)
  have "length (take (length (users s)) (map uid (users s'))) = length (users s)"
    using tk by simp
  then show len: "i < length (users s')" using i by simp
  have "take (length (users s)) (map uid (users s')) ! i = map uid (users s) ! i" using tk by simp
  then show u: "uid (users s' ! i) = uid (users s ! i)" using i len by simp
  have split: "transactions s' = transactions s @ drop (length (transactions s)) (transactions s')"
    using tt by (metis append_take_drop_id)
  have a: "balanceOf (transactions s') (uid (users s' ! i)) = coins (users s' ! i)"
    using l' len by (simp add: ledgerOk_def list_all_iff)
  have b: "balanceOf (transactions s) (uid (users s ! i)) = coins (users s ! i)"
    using l i by (simp add: ledgerOk_def list_all_iff)
  have "balanceOf (transactions s') (uid (users s ! i)) =
          balanceOf (transactions s) (uid (users s ! i))
          + balanceOf (drop (length (transactions s)) (transactions s')) (uid (users s ! i))"
    using split balanceOf_append by metis
  then show "coins (users s' ! i) = coins (users s ! i)
           + balanceOf (drop (length (transactions s)) (transactions s')) (uid (users s ! i))"
    using a b u by simp
qed

subsection \<open>The writes of a run\<close>

text \<open>The list of writes of each handler is what the handler does when it completes: the
  state a complete run leaves is the state after all the writes of the list, in order.\<close>

lemma applyWrites_append: "applyWrites (a @ b) s = applyWrites b (applyWrites a s)"
  by (simp add: applyWrites_def)

lemma raffleEntry_writes:
  "fst (raffleEntryFor s tid usr rf) = applyWrites (raffleEntryWrites tid usr rf) s"
  by (simp add: raffleEntryFor_def raffleEntryWrites_def applyWrites_def Let_def)

lemma purchase_writes:
  "fst (purchaseFor s tid usr it) = applyWrites (purchaseWrites tid usr it) s"
  by (simp add: purchaseFor_def purchaseWrites_def applyWrites_def Let_def split: option.splits)

lemma redeem_writes:
  "fst (redeemInvite s usr inp) = applyWrites (redeemWrites s usr inp) s"
  by (simp add: redeemInvite_def redeemWrites_def applyWrites_def Let_def split: option.splits)

lemma startReferral_writes:
  "fst (startReferral s usr code) = applyWrites (startReferralWrites s usr code) s"
  by (simp add: startReferral_def startReferralWrites_def applyWrites_def Let_def split: option.splits)

lemma start_writes:
  "fst (start_cmd s tid a b c refCode nano) = applyWrites (startWrites s tid a b c refCode nano) s"
  by (simp add: start_cmd_def startWrites_def applyWrites_append startReferral_writes Let_def
      startSync_def applyWrites_def split: option.splits)

lemma daily_writes:
  "fst (daily_cmd s tid now ct) = applyWrites (dailyWrites s tid now ct) s"
  by (simp add: daily_cmd_def dailyWrites_def applyWrites_def Let_def split: option.splits)

lemma numbered_writes:
  "fst (numberedSelection s tid usr inp) = applyWrites (numberedWrites s tid usr inp) s"
  by (simp add: numberedSelection_def numberedWrites_def raffleEntry_writes purchase_writes Let_def
      split: option.splits) (simp add: applyWrites_def)

lemma message_writes:
  "fst (message_handler s tid inp) = applyWrites (messageWrites s tid inp) s"
  by (simp add: message_handler_def messageWrites_def numbered_writes redeem_writes
      split: option.splits) (simp add: applyWrites_def)

lemma dailyCheckin_writes:
  "fst (handleDailyCheckin s tid usr now wt) = applyWrites (dailyCheckinWrites s tid usr now wt) s"
  by (simp add: handleDailyCheckin_def dailyCheckinWrites_def applyWrites_def Let_def split: option.splits)

lemma dispatch_writes:
  "fst (callback_dispatch s tid usr cdata now wt) = applyWrites (dispatchWrites s tid usr cdata now wt) s"
  by (simp add: callback_dispatch_def dispatchWrites_def dailyCheckin_writes handleMyInfo_def
      handleEnterCode_def handleBackToMenu_def handleRaffleEntry_def handleShopPurchase_def
      raffleEntry_writes purchase_writes Let_def split: option.splits) (simp add: applyWrites_def)

lemma callback_writes:
  "fst (callback_query s tid cdata now wt) = applyWrites (callbackWrites s tid cdata now wt) s"
  by (simp add: callback_query_def callbackWrites_def dispatch_writes split: option.splits)
     (simp add: applyWrites_def)

lemma handle_writes: "fst (handle s ev) = applyWrites (writesOf s ev) s"
  by (cases ev) (simp_all add: start_writes daily_writes message_writes callback_writes info_cmd_def
      applyWrites_def split: option.splits)

text \<open>So an attempt that rejects after all the writes of its run leaves the state of the
  complete run, and a list of attempts that all complete is a run of their events.\<close>

lemma rejects_after_all_writes:
  "length (writesOf s ev) \<le> k \<Longrightarrow> attemptState s (RejectsAfter k ev) = attemptState s (Completes ev)"
  by (simp add: handle_writes)

lemma runAttempts_completes: "runAttempts s (map Completes evs) = run s evs"
  by (induction evs arbitrary: s) simp_all

lemma keeps_runAttempts:
  assumes "keysOk s" "ledgerOk s" "list_all completes atts"
  shows "keeps s (runAttempts s atts)"
  using assms
proof (induction atts arbitrary: s)
  case Nil
  then show ?case by (simp add: keeps_refl)
next
  case (Cons a as)
  from Cons.prems(3) obtain ev where a: "a = Completes ev" by (cases a) simp_all
  have h: "keeps s (fst (handle s ev))" using Cons.prems(1,2) by (rule keeps_handle)
  then have "keysOk (fst (handle s ev))" "ledgerOk (fst (handle s ev))" by (simp_all add: keeps_def)
  then have "keeps (fst (handle s ev)) (runAttempts (fst (handle s ev)) as)"
    using Cons.prems(3) by (intro Cons.IH) simp_all
  with h show ?case by (simp add: a keeps_trans)
qed

text \<open>
  A run that ends in the catch block can leave a debit without its Transaction. Ann's
  callback \<^verbatim>\<open>raffle_2\<close> has four writes; when \<^verbatim>\<open>storage.createTransaction\<close>, the fourth,
  rejects, the first three stay: she is left with 6 coins and one entry, while her only
  transaction is the reward of 10.
\<close>

lemma rejected_transaction_write_breaks_ledger:
  "length (writesOf demoWorld (CallbackQuery ''100'' ''raffle_2'' 1 1)) = 4
   \<and> keysOk demoWorld \<and> ledgerOk demoWorld
   \<and> map coins (users (attemptState demoWorld (RejectsAfter 3 (CallbackQuery ''100'' ''raffle_2'' 1 1)))) = [6, 0]
   \<and> length (raffleEntries (attemptState demoWorld (RejectsAfter 3 (CallbackQuery ''100'' ''raffle_2'' 1 1)))) = 1
   \<and> map (\<lambda>t. (userId t, amount t))
        (transactions (attemptState demoWorld (RejectsAfter 3 (CallbackQuery ''100'' ''raffle_2'' 1 1)))) = [(1, 10)]
   \<and> \<not> ledgerOk (attemptState demoWorld (RejectsAfter 3 (CallbackQuery ''100'' ''raffle_2'' 1 1)))"
  by code_simp

subsection \<open>The invariant\<close>

text \<open>
  Claim C1, as the code has it. Let the handlers run one after the other, no handler of
  any user starting before the one before it has returned, and let every one of them
  complete, no awaited call rejecting (the attempts all satisfy \<^verbatim>\<open>completes\<close>). In a state
  whose keys are in order and in which every user's balance is the sum of that user's
  transaction amounts, the same holds after any such sequence of attempts, and after any
  single complete run of a handler; a handler only appends to the transaction log, and
  for every user the balance it leaves is the balance it found plus the sum of the
  amounts it appended for that user. So every daily reward, referral award, raffle entry
  and shop purchase that completes appends transactions whose signed amounts add up to
  the balance change it applied. Nothing is stated here for handlers that overlap or that
  end in the catch block: the code neither serialises the handlers of a user nor undoes
  the writes of a run that fails.
\<close>

theorem ledger_matches_balances:
  "keysOk s \<and> ledgerOk s \<and> list_all completes atts \<longrightarrow>
     (\<forall>u\<in>set (users (runAttempts s atts)).
         balanceOf (transactions (runAttempts s atts)) (uid u) = coins u)
     \<and> keysOk (runAttempts s atts)
     \<and> (\<forall>u\<in>set (users (fst (handle s ev))).
           balanceOf (transactions (fst (handle s ev))) (uid u) = coins u)
     \<and> keysOk (fst (handle s ev))
     \<and> take (length (transactions s)) (transactions (fst (handle s ev))) = transactions s
     \<and> (\<forall>i<length (users s).
           i < length (users (fst (handle s ev)))
           \<and> uid (users (fst (handle s ev)) ! i) = uid (users s ! i)
           \<and> coins (users (fst (handle s ev)) ! i) =
               coins (users s ! i)
               + balanceOf (drop (length (transactions s)) (transactions (fst (handle s ev))))
                   (uid (users s ! i)))"
proof (intro impI)
  assume h: "keysOk s \<and> ledgerOk s \<and> list_all completes atts"
  then have k: "keysOk s" and l: "ledgerOk s" and c: "list_all completes atts" by simp_all
  have r: "keeps s (runAttempts s atts)" using k l c by (rule keeps_runAttempts)
  have e: "keeps s (fst (handle s ev))" using k l by (rule keeps_handle)
  have l': "ledgerOk (fst (handle s ev))" and g: "grows s (fst (handle s ev))"
    using e by (simp_all add: keeps_def)
  note gb = grows_balance [OF l l' g]
  show "(\<forall>u\<in>set (users (runAttempts s atts)).
         balanceOf (transactions (runAttempts s atts)) (uid u) = coins u)
     \<and> keysOk (runAttempts s atts)
     \<and> (\<forall>u\<in>set (users (fst (handle s ev))).
           balanceOf (transactions (fst (handle s ev))) (uid u) = coins u)
     \<and> keysOk (fst (handle s ev))
     \<and> take (length (transactions s)) (transactions (fst (handle s ev))) = transactions s
     \<and> (\<forall>i<length (users s).
           i < length (users (fst (handle s ev)))
           \<and> uid (users (fst (handle s ev)) ! i) = uid (users s ! i)
           \<and> coins (users (fst (handle s ev)) ! i) =
               coins (users s ! i)
               + balanceOf (drop (length (transactions s)) (transactions (fst (handle s ev))))
                   (uid (users s ! i)))"
    using r e gb by (simp add: keeps_def ledgerOk_def list_all_iff grows_def)
qed

text \<open>The theorem on the eight events of the concrete state, each run to completion in
  turn: the balances end at 2, 6 and 0, and the log holds the seven amounts that make
  them up.\<close>

theorem ledger_matches_balances_witness:
  "keysOk demoWorld \<and> ledgerOk demoWorld \<and> list_all completes (map Completes demoEvents)
   \<and> ledgerOk (runAttempts demoWorld (map Completes demoEvents))
   \<and> map coins (users (runAttempts demoWorld (map Completes demoEvents))) = [2, 6, 0]
   \<and> map (\<lambda>t. (userId t, amount t)) (transactions (runAttempts demoWorld (map Completes demoEvents))) =
       [(1, 10), (1, 5), (2, 5), (1, 1), (2, 1), (1, - 4), (1, - 10)]"
proof -
  have k: "keysOk demoWorld" by code_simp
  have l: "ledgerOk demoWorld" by code_simp
  have m: "list_all completes (map Completes demoEvents)" by (simp add: list_all_iff)
  have "\<forall>u\<in>set (users (runAttempts demoWorld (map Completes demoEvents))).
          balanceOf (transactions (runAttempts demoWorld (map Completes demoEvents))) (uid u) = coins u"
    using ledger_matches_balances [of demoWorld "map Completes demoEvents"] k l m by blast
  then have a: "ledgerOk (runAttempts demoWorld (map Completes demoEvents))"
    by (simp add: ledgerOk_def list_all_iff)
  have b: "map coins (users (runAttempts demoWorld (map Completes demoEvents))) = [2, 6, 0]"
    by code_simp
  have c: "map (\<lambda>t. (userId t, amount t)) (transactions (runAttempts demoWorld (map Completes demoEvents))) =
       [(1, 10), (1, 5), (2, 5), (1, 1), (2, 1), (1, - 4), (1, - 10)]" by code_simp
  from k l m a b c show ?thesis by blast
qed

text \<open>
  Claim C1 as stated fails when two handlers of one user overlap. A raffle entry writes
  the balance as "the coins of the user object read at the start, minus the cost". When
  two callbacks of Ann have both read her row before either writes, both entries are
  applied from the same 10 coins: she is left with 6 coins, while her transactions (10,
  -4 and -4) add up to 2. Both handlers have completed, and the sum is not the balance.
\<close>

theorem overlapping_entries_break_ledger_counterexample:
  "getUserByTelegramId demoWorld ''100'' = Some ann
   \<and> keysOk demoWorld \<and> ledgerOk demoWorld
   \<and> map coins (users annEnteredTwice) = [6, 0]
   \<and> map (\<lambda>t. (userId t, amount t)) (transactions annEnteredTwice) = [(1, 10), (1, - 4), (1, - 4)]
   \<and> balanceOf (transactions annEnteredTwice) 1 = 2
   \<and> \<not> ledgerOk annEnteredTwice"
  by code_simp

section \<open>Referrals\<close>

lemma getUser_createTransaction [simp]:
  "getUserByTelegramId (createTransaction s i ty amt d) t = getUserByTelegramId s t"
  by (simp add: getUserByTelegramId_def createTransaction_def)

lemma getUser_userStates [simp]:
  "getUserByTelegramId (s\<lparr>userStates := m\<rparr>) t = getUserByTelegramId s t"
  by (simp add: getUserByTelegramId_def)

lemma getCode_userStates [simp]:
  "getUserByReferralCode (s\<lparr>userStates := m\<rparr>) c = getUserByReferralCode s c"
  by (simp add: getUserByReferralCode_def)

lemma awardReward_found:
  "getUserByTelegramId s tid = Some u \<Longrightarrow>
   awardReward s tid amt ty d =
     (createTransaction (updateUser s tid (\<lambda>v. v\<lparr>coins := coins v + amt\<rparr>)) (uid u) ty amt d,
      Some (u\<lparr>coins := coins u + amt\<rparr>))"
  by (simp add: awardReward_def)

lemma redeem_rejected:
  "truthy (referredBy usr) \<Longrightarrow>
   redeemInvite s usr inp =
     (s, [case getUserByReferralCode s (toUpperCase (trim inp)) of
            None \<Rightarrow> InvalidInviteCode
          | Some owner \<Rightarrow> if uid owner = uid usr then OwnInviteCode else AlreadyUsedInviteCode])"
  by (simp add: redeemInvite_def Let_def split: option.splits)

lemma redeem_accepted:
  assumes n: "getUserByTelegramId s (telegramId n) = Some n"
    and r: "getUserByTelegramId s (telegramId r) = Some r"
    and c: "getUserByReferralCode s (toUpperCase (trim inp)) = Some r"
    and ne: "uid r \<noteq> uid n"
    and nr: "\<not> truthy (referredBy n)"
  shows "snd (redeemInvite s n inp) =
           [InviteCodeAccepted (toUpperCase (trim inp)) (referralRewardAmount s)
              (coins n + referralRewardAmount s)]"
    and "getUserByTelegramId (fst (redeemInvite s n inp)) (telegramId r) =
           Some (r\<lparr>coins := coins r + referralRewardAmount s\<rparr>)"
    and "getUserByTelegramId (fst (redeemInvite s n inp)) (telegramId n) =
           Some (n\<lparr>coins := coins n + referralRewardAmount s,
                   referredBy := Some (toUpperCase (trim inp))\<rparr>)"
    and "transactions (fst (redeemInvite s n inp)) =
           transactions s @
             [\<lparr>userId = uid r, ttype = Referral, amount = referralRewardAmount s,
                description = ''Referral bonus for inviting '' @ displayName n\<rparr>,
              \<lparr>userId = uid n, ttype = Referral, amount = referralRewardAmount s,
                description = ''Bonus for using invitation code''\<rparr>]"
    and "userStates (fst (redeemInvite s n inp)) = userStates s"
proof -
  let ?amt = "referralRewardAmount s"
  let ?up = "\<lambda>v. v\<lparr>coins := coins v + ?amt\<rparr>"
  let ?s1 = "\<lambda>d. createTransaction (updateUser s (telegramId r) ?up) (uid r) Referral ?amt d"
  let ?s2 = "\<lambda>d d'. createTransaction (updateUser (?s1 d) (telegramId n) ?up) (uid n) Referral ?amt d'"
  have tn: "telegramId r \<noteq> telegramId n" using n r ne by auto
  have a1: "\<And>d. awardReward s (telegramId r) ?amt Referral d = (?s1 d, Some (?up r))"
    by (rule awardReward_found [OF r])
  have n1: "\<And>d. getUserByTelegramId (?s1 d) (telegramId n) = Some n"
    using tn n by (simp add: getUser_updateUser)
  have a2: "\<And>d d'. awardReward (?s1 d) (telegramId n) ?amt Referral d' = (?s2 d d', Some (?up n))"
    by (rule awardReward_found [OF n1])
  have red: "redeemInvite s n inp =
      (updateUser (?s2 (''Referral bonus for inviting '' @ displayName n) ''Bonus for using invitation code'')
         (telegramId n) (\<lambda>v. v\<lparr>referredBy := Some (toUpperCase (trim inp))\<rparr>),
       [InviteCodeAccepted (toUpperCase (trim inp)) ?amt (coins n + ?amt)])"
    using c ne nr by (simp add: redeemInvite_def Let_def a1 a2)
  show "snd (redeemInvite s n inp) =
           [InviteCodeAccepted (toUpperCase (trim inp)) ?amt (coins n + ?amt)]"
    by (simp add: red)
  show "getUserByTelegramId (fst (redeemInvite s n inp)) (telegramId r) = Some (r\<lparr>coins := coins r + ?amt\<rparr>)"
    using tn r by (simp add: red getUser_updateUser)
  show "getUserByTelegramId (fst (redeemInvite s n inp)) (telegramId n) =
           Some (n\<lparr>coins := coins n + ?amt, referredBy := Some (toUpperCase (trim inp))\<rparr>)"
    using tn n by (simp add: red getUser_updateUser)
  show "transactions (fst (redeemInvite s n inp)) =
           transactions s @
             [\<lparr>userId = uid r, ttype = Referral, amount = ?amt,
                description = ''Referral bonus for inviting '' @ displayName n\<rparr>,
              \<lparr>userId = uid n, ttype = Referral, amount = ?amt,
                description = ''Bonus for using invitation code''\<rparr>]"
    by (simp add: red updateUser_def createTransaction_def)
  show "userStates (fst (redeemInvite s n inp)) = userStates s"
    by (simp add: userStates_redeemInvite)
qed


lemma startReferral_accepted:
  assumes n: "getUserByTelegramId s (telegramId n) = Some n"
    and r: "getUserByTelegramId s (telegramId r) = Some r"
    and c: "getUserByReferralCode s code = Some r"
    and ne: "uid r \<noteq> uid n"
  shows "snd (startReferral s n code) =
           (Some (n\<lparr>coins := coins n + referralRewardAmount s\<rparr>),
            [ReferralWelcome (referralRewardAmount s)])"
    and "getUserByTelegramId (fst (startReferral s n code)) (telegramId r) =
           Some (r\<lparr>coins := coins r + referralRewardAmount s\<rparr>)"
    and "getUserByTelegramId (fst (startReferral s n code)) (telegramId n) =
           Some (n\<lparr>coins := coins n + referralRewardAmount s, referredBy := Some code\<rparr>)"
    and "transactions (fst (startReferral s n code)) =
           transactions s @
             [\<lparr>userId = uid r, ttype = Referral, amount = referralRewardAmount s,
                description = ''Referral bonus for inviting '' @ displayName n\<rparr>,
              \<lparr>userId = uid n, ttype = Referral, amount = referralRewardAmount s,
                description = ''Welcome bonus for joining via referral''\<rparr>]"
proof -
  let ?amt = "referralRewardAmount s"
  let ?up = "\<lambda>v. v\<lparr>coins := coins v + ?amt\<rparr>"
  let ?s1 = "\<lambda>d. createTransaction (updateUser s (telegramId r) ?up) (uid r) Referral ?amt d"
  let ?s2 = "\<lambda>d d'. createTransaction (updateUser (?s1 d) (telegramId n) ?up) (uid n) Referral ?amt d'"
  have tn: "telegramId r \<noteq> telegramId n" using n r ne by auto
  have a1: "\<And>d. awardReward s (telegramId r) ?amt Referral d = (?s1 d, Some (?up r))"
    by (rule awardReward_found [OF r])
  have n1: "\<And>d. getUserByTelegramId (?s1 d) (telegramId n) = Some n"
    using tn n by (simp add: getUser_updateUser)
  have a2: "\<And>d d'. awardReward (?s1 d) (telegramId n) ?amt Referral d' = (?s2 d d', Some (?up n))"
    by (rule awardReward_found [OF n1])
  have red: "startReferral s n code =
      (updateUser (?s2 (''Referral bonus for inviting '' @ displayName n)
                       ''Welcome bonus for joining via referral'')
         (telegramId n) (\<lambda>v. v\<lparr>referredBy := Some code\<rparr>),
       Some (?up n), [ReferralWelcome ?amt])"
    using c by (simp add: startReferral_def Let_def a1 a2)
  show "snd (startReferral s n code) = (Some (?up n), [ReferralWelcome ?amt])"
    by (simp add: red)
  show "getUserByTelegramId (fst (startReferral s n code)) (telegramId r) = Some (?up r)"
    using tn r by (simp add: red getUser_updateUser)
  show "getUserByTelegramId (fst (startReferral s n code)) (telegramId n) =
           Some (n\<lparr>coins := coins n + ?amt, referredBy := Some code\<rparr>)"
    using tn n by (simp add: red getUser_updateUser)
  show "transactions (fst (startReferral s n code)) =
           transactions s @
             [\<lparr>userId = uid r, ttype = Referral, amount = ?amt,
                description = ''Referral bonus for inviting '' @ displayName n\<rparr>,
              \<lparr>userId = uid n, ttype = Referral, amount = ?amt,
                description = ''Welcome bonus for joining via referral''\<rparr>]"
    by (simp add: red updateUser_def createTransaction_def)
qed

lemma getCode_updateUser:
  assumes "\<And>v. referralCode (f v) = referralCode v"
  shows "getUserByReferralCode (updateUser s tid f) code =
           map_option (\<lambda>v. if telegramId v = tid then f v else v) (getUserByReferralCode s code)"
  unfolding getUserByReferralCode_def updateUser_def
  by (simp add: find_map_same assms)

lemma start_cmd_registered:
  assumes "tid \<noteq> []" "getUserByTelegramId s tid = Some n"
  shows "start_cmd s tid a b c refCode nano =
     (let r1 = startSync s tid n a b c;
          r2 = (case refCode of
                    None \<Rightarrow> (fst r1, Some (snd r1), [])
                  | Some code \<Rightarrow>
                      if \<not> truthy (referredBy (snd r1)) \<and> code \<noteq> []
                      then startReferral (fst r1) (snd r1) code
                      else (fst r1, Some (snd r1), []))
        in case fst (snd r2) of
             None \<Rightarrow> (fst r2, snd (snd r2) @ [SorrySomethingWrong])
           | Some shown \<Rightarrow> (fst r2, snd (snd r2) @ [MainMenu (coins shown)]))"
  using assms by (simp add: start_cmd_def Let_def)

lemma startSync_lookup:
  assumes n: "getUserByTelegramId s tid = Some n"
  shows "getUserByTelegramId (fst (startSync s tid n a b c)) tid = Some (snd (startSync s tid n a b c))"
    and "t \<noteq> tid \<Longrightarrow> getUserByTelegramId (fst (startSync s tid n a b c)) t = getUserByTelegramId s t"
    and "getUserByReferralCode s code = Some r \<Longrightarrow> telegramId r \<noteq> tid \<Longrightarrow>
           getUserByReferralCode (fst (startSync s tid n a b c)) code = Some r"
  using n
  by (auto simp: startSync_def Let_def getUser_updateUser getCode_updateUser)

lemma startSync_fields:
  shows "uid (snd (startSync s tid n a b c)) = uid n"
    and "coins (snd (startSync s tid n a b c)) = coins n"
    and "referredBy (snd (startSync s tid n a b c)) = referredBy n"
    and "telegramId (snd (startSync s tid n a b c)) = telegramId n"
    and "transactions (fst (startSync s tid n a b c)) = transactions s"
    and "map coins (users (fst (startSync s tid n a b c))) = map coins (users s)"
    and "referralRewardAmount (fst (startSync s tid n a b c)) = referralRewardAmount s"
  by (auto simp: startSync_def Let_def updateUser_def referralRewardAmount_def)

lemma message_handler_pending:
  assumes "tid \<noteq> []" "inp \<noteq> []" "\<not> startsWith inp ''/''" "getUserByTelegramId s tid = Some n"
    "map_option fst (userStates s tid) = Some ''expecting_invite_code''"
  shows "message_handler s tid inp = redeemInvite (s\<lparr>userStates := (userStates s)(tid := None)\<rparr>) n inp"
  using assms by (cases "userStates s tid") (auto simp: message_handler_def)

text \<open>
  Claim C2, as the code has it. A registered user N whose referredBy is not set redeems
  the code of another user R, either as the text sent after the invitation-code prompt or
  as the argument of \<^verbatim>\<open>/start\<close>. Then R and N are each credited the configured referral
  amount, each credit is a Transaction of its own, and N's referredBy becomes the code
  that was looked up. Once N's referredBy is set, no attempt of N changes a balance or the
  log: after the prompt the attempt is answered with "already used" when the code belongs
  to another user, with "invalid code" when no user owns it, and with "own code" when it is
  N's; \<^verbatim>\<open>/start\<close> skips the referral block without a message of its own, and sends the
  main menu as it always does.
\<close>

theorem referral_credited_once:
  "(tid \<noteq> [] \<and> inp \<noteq> [] \<and> \<not> startsWith inp ''/''
      \<and> getUserByTelegramId s tid = Some n
      \<and> map_option fst (userStates s tid) = Some ''expecting_invite_code''
      \<and> getUserByReferralCode s (toUpperCase (trim inp)) = Some r
      \<and> getUserByTelegramId s (telegramId r) = Some r
      \<and> uid r \<noteq> uid n \<and> \<not> truthy (referredBy n) \<longrightarrow>
      snd (message_handler s tid inp) =
        [InviteCodeAccepted (toUpperCase (trim inp)) (referralRewardAmount s)
           (coins n + referralRewardAmount s)]
      \<and> getUserByTelegramId (fst (message_handler s tid inp)) (telegramId r) =
          Some (r\<lparr>coins := coins r + referralRewardAmount s\<rparr>)
      \<and> getUserByTelegramId (fst (message_handler s tid inp)) tid =
          Some (n\<lparr>coins := coins n + referralRewardAmount s,
                  referredBy := Some (toUpperCase (trim inp))\<rparr>)
      \<and> transactions (fst (message_handler s tid inp)) =
          transactions s @
            [\<lparr>userId = uid r, ttype = Referral, amount = referralRewardAmount s,
               description = ''Referral bonus for inviting '' @ displayName n\<rparr>,
             \<lparr>userId = uid n, ttype = Referral, amount = referralRewardAmount s,
               description = ''Bonus for using invitation code''\<rparr>])
   \<and> (tid \<noteq> [] \<and> inp \<noteq> [] \<and> \<not> startsWith inp ''/''
        \<and> getUserByTelegramId s tid = Some n
        \<and> map_option fst (userStates s tid) = Some ''expecting_invite_code''
        \<and> truthy (referredBy n) \<longrightarrow>
        users (fst (message_handler s tid inp)) = users s
        \<and> transactions (fst (message_handler s tid inp)) = transactions s
        \<and> snd (message_handler s tid inp) =
            [case getUserByReferralCode s (toUpperCase (trim inp)) of
               None \<Rightarrow> InvalidInviteCode
             | Some owner \<Rightarrow> if uid owner = uid n then OwnInviteCode else AlreadyUsedInviteCode])
   \<and> (tid \<noteq> [] \<and> code \<noteq> []
        \<and> getUserByTelegramId s tid = Some n
        \<and> getUserByReferralCode s code = Some r
        \<and> getUserByTelegramId s (telegramId r) = Some r
        \<and> uid r \<noteq> uid n \<and> \<not> truthy (referredBy n) \<longrightarrow>
        map_option coins (getUserByTelegramId (fst (start_cmd s tid a b c (Some code) nano)) (telegramId r)) =
          Some (coins r + referralRewardAmount s)
        \<and> map_option coins (getUserByTelegramId (fst (start_cmd s tid a b c (Some code) nano)) tid) =
            Some (coins n + referralRewardAmount s)
        \<and> map_option referredBy (getUserByTelegramId (fst (start_cmd s tid a b c (Some code) nano)) tid) =
            Some (Some code)
        \<and> map (\<lambda>t. (userId t, ttype t, amount t))
              (transactions (fst (start_cmd s tid a b c (Some code) nano))) =
            map (\<lambda>t. (userId t, ttype t, amount t)) (transactions s) @
              [(uid r, Referral, referralRewardAmount s), (uid n, Referral, referralRewardAmount s)])
   \<and> (tid \<noteq> [] \<and> getUserByTelegramId s tid = Some n \<and> truthy (referredBy n) \<longrightarrow>
        map coins (users (fst (start_cmd s tid a b c refCode nano))) = map coins (users s)
        \<and> transactions (fst (start_cmd s tid a b c refCode nano)) = transactions s
        \<and> snd (start_cmd s tid a b c refCode nano) = [MainMenu (coins n)])"
proof (intro conjI impI)
  assume h: "tid \<noteq> [] \<and> inp \<noteq> [] \<and> \<not> startsWith inp ''/''
      \<and> getUserByTelegramId s tid = Some n
      \<and> map_option fst (userStates s tid) = Some ''expecting_invite_code''
      \<and> getUserByReferralCode s (toUpperCase (trim inp)) = Some r
      \<and> getUserByTelegramId s (telegramId r) = Some r
      \<and> uid r \<noteq> uid n \<and> \<not> truthy (referredBy n)"
  let ?s0 = "s\<lparr>userStates := (userStates s)(tid := None)\<rparr>"
  have tn: "telegramId n = tid" using h by (auto simp: getUserByTelegramId_def find_Some_iff)
  have m: "message_handler s tid inp = redeemInvite ?s0 n inp"
    using h by (intro message_handler_pending) simp_all
  have n0: "getUserByTelegramId ?s0 (telegramId n) = Some n"
    and r0: "getUserByTelegramId ?s0 (telegramId r) = Some r"
    and c0: "getUserByReferralCode ?s0 (toUpperCase (trim inp)) = Some r"
    using h tn by simp_all
  have ne: "uid r \<noteq> uid n" and nr: "\<not> truthy (referredBy n)" using h by simp_all
  note acc = redeem_accepted [OF n0 r0 c0 ne nr]
  have amt: "referralRewardAmount ?s0 = referralRewardAmount s" by (simp add: referralRewardAmount_def)
  show "snd (message_handler s tid inp) =
        [InviteCodeAccepted (toUpperCase (trim inp)) (referralRewardAmount s)
           (coins n + referralRewardAmount s)]"
    using acc(1) by (simp add: m amt)
  show "getUserByTelegramId (fst (message_handler s tid inp)) (telegramId r) =
          Some (r\<lparr>coins := coins r + referralRewardAmount s\<rparr>)"
    using acc(2) by (simp add: m amt)
  show "getUserByTelegramId (fst (message_handler s tid inp)) tid =
          Some (n\<lparr>coins := coins n + referralRewardAmount s,
                  referredBy := Some (toUpperCase (trim inp))\<rparr>)"
    using acc(3) by (simp add: m amt tn)
  show "transactions (fst (message_handler s tid inp)) =
          transactions s @
            [\<lparr>userId = uid r, ttype = Referral, amount = referralRewardAmount s,
               description = ''Referral bonus for inviting '' @ displayName n\<rparr>,
             \<lparr>userId = uid n, ttype = Referral, amount = referralRewardAmount s,
               description = ''Bonus for using invitation code''\<rparr>]"
    using acc(4) by (simp add: m amt)
next
  assume h: "tid \<noteq> [] \<and> inp \<noteq> [] \<and> \<not> startsWith inp ''/''
        \<and> getUserByTelegramId s tid = Some n
        \<and> map_option fst (userStates s tid) = Some ''expecting_invite_code''
        \<and> truthy (referredBy n)"
  let ?s0 = "s\<lparr>userStates := (userStates s)(tid := None)\<rparr>"
  have m: "message_handler s tid inp = redeemInvite ?s0 n inp"
    using h by (intro message_handler_pending) simp_all
  have rej: "redeemInvite ?s0 n inp =
     (?s0, [case getUserByReferralCode ?s0 (toUpperCase (trim inp)) of
            None \<Rightarrow> InvalidInviteCode
          | Some owner \<Rightarrow> if uid owner = uid n then OwnInviteCode else AlreadyUsedInviteCode])"
    using h by (intro redeem_rejected) simp
  show "users (fst (message_handler s tid inp)) = users s"
    and "transactions (fst (message_handler s tid inp)) = transactions s"
    and "snd (message_handler s tid inp) =
            [case getUserByReferralCode s (toUpperCase (trim inp)) of
               None \<Rightarrow> InvalidInviteCode
             | Some owner \<Rightarrow> if uid owner = uid n then OwnInviteCode else AlreadyUsedInviteCode]"
    by (simp_all add: m rej)
next
  assume h: "tid \<noteq> [] \<and> code \<noteq> []
        \<and> getUserByTelegramId s tid = Some n
        \<and> getUserByReferralCode s code = Some r
        \<and> getUserByTelegramId s (telegramId r) = Some r
        \<and> uid r \<noteq> uid n \<and> \<not> truthy (referredBy n)"
  let ?r1 = "startSync s tid n a b c"
  have g: "getUserByTelegramId s tid = Some n" using h by simp
  have tn: "telegramId n = tid" using h by (auto simp: getUserByTelegramId_def find_Some_iff)
  have tr: "telegramId r \<noteq> tid" using h by auto
  have st: "start_cmd s tid a b c (Some code) nano =
      (let r2 = startReferral (fst ?r1) (snd ?r1) code
       in case fst (snd r2) of
             None \<Rightarrow> (fst r2, snd (snd r2) @ [SorrySomethingWrong])
           | Some shown \<Rightarrow> (fst r2, snd (snd r2) @ [MainMenu (coins shown)]))"
    using h by (simp add: start_cmd_registered [where n = n] Let_def startSync_fields)
  have n1: "getUserByTelegramId (fst ?r1) (telegramId (snd ?r1)) = Some (snd ?r1)"
    using startSync_lookup(1) [OF g] by (simp add: startSync_fields tn)
  have r1: "getUserByTelegramId (fst ?r1) (telegramId r) = Some r"
    using startSync_lookup(2) [OF g tr] h by simp
  have c1: "getUserByReferralCode (fst ?r1) code = Some r"
    using startSync_lookup(3) [OF g _ tr] h by simp
  have ne: "uid r \<noteq> uid (snd ?r1)" using h by (simp add: startSync_fields)
  note acc = startReferral_accepted [OF n1 r1 c1 ne]
  have fs: "fst (start_cmd s tid a b c (Some code) nano) = fst (startReferral (fst ?r1) (snd ?r1) code)"
    using acc(1) by (simp add: st Let_def)
  show "map_option coins (getUserByTelegramId (fst (start_cmd s tid a b c (Some code) nano)) (telegramId r)) =
          Some (coins r + referralRewardAmount s)"
    using acc(2) by (simp add: fs startSync_fields)
  show "map_option coins (getUserByTelegramId (fst (start_cmd s tid a b c (Some code) nano)) tid) =
            Some (coins n + referralRewardAmount s)"
    using acc(3) by (simp add: fs startSync_fields tn)
  show "map_option referredBy (getUserByTelegramId (fst (start_cmd s tid a b c (Some code) nano)) tid) =
            Some (Some code)"
    using acc(3) by (simp add: fs startSync_fields tn)
  show "map (\<lambda>t. (userId t, ttype t, amount t))
              (transactions (fst (start_cmd s tid a b c (Some code) nano))) =
            map (\<lambda>t. (userId t, ttype t, amount t)) (transactions s) @
              [(uid r, Referral, referralRewardAmount s), (uid n, Referral, referralRewardAmount s)]"
    using acc(4) by (simp add: fs startSync_fields)
next
  assume h: "tid \<noteq> [] \<and> getUserByTelegramId s tid = Some n \<and> truthy (referredBy n)"
  have st: "fst (start_cmd s tid a b c refCode nano) = fst (startSync s tid n a b c)"
    using h by (simp add: start_cmd_registered [where n = n] Let_def startSync_fields
        split: option.splits)
  show "map coins (users (fst (start_cmd s tid a b c refCode nano))) = map coins (users s)"
    and "transactions (fst (start_cmd s tid a b c refCode nano)) = transactions s"
    by (simp_all add: st startSync_fields)
  show "snd (start_cmd s tid a b c refCode nano) = [MainMenu (coins n)]"
    using h by (simp add: start_cmd_registered [where n = n] Let_def startSync_fields
        split: option.splits)
qed

text \<open>The theorem on the spec's example: Ann has 10 coins, the amount is 5, Bob redeems
  her code. Ann ends with 15, Bob with 5 and her code as referredBy; his second attempt
  with the same code is answered "already used" and changes nothing.\<close>

theorem referral_credited_once_witness:
  "map_option coins (getUserByTelegramId bobReferred ''100'') = Some 15
   \<and> map_option coins (getUserByTelegramId bobReferred ''200'') = Some 5
   \<and> map_option referredBy (getUserByTelegramId bobReferred ''200'') = Some (Some ''ABCDEFGH'')
   \<and> map amount (transactions bobReferred) = [10, 5, 5]
   \<and> snd (message_handler bobAskedAgain ''200'' ''abcdefgh'') = [AlreadyUsedInviteCode]
   \<and> users (fst (message_handler bobAskedAgain ''200'' ''abcdefgh'')) = users bobAskedAgain
   \<and> transactions (fst (message_handler bobAskedAgain ''200'' ''abcdefgh'')) = transactions bobAskedAgain"
proof -
  have i: "''200'' \<noteq> []" "'' abcdefgh '' \<noteq> []" "\<not> startsWith '' abcdefgh '' ''/''"
    "''abcdefgh'' \<noteq> []" "\<not> startsWith ''abcdefgh'' ''/''"
    by (simp_all add: startsWith_def)
  have c: "toUpperCase (trim '' abcdefgh '') = ''ABCDEFGH''" "toUpperCase (trim ''abcdefgh'') = ''ABCDEFGH''"
    by code_simp+
  have h1: "getUserByTelegramId bobAsked ''200'' = Some bob"
    and h2: "map_option fst (userStates bobAsked ''200'') = Some ''expecting_invite_code''"
    and h3: "getUserByReferralCode bobAsked ''ABCDEFGH'' = Some ann"
    and h4: "getUserByTelegramId bobAsked (telegramId ann) = Some ann"
    and h5: "uid ann \<noteq> uid bob" "\<not> truthy (referredBy bob)"
    and h6: "referralRewardAmount bobAsked = 5"
    by (simp_all add: bobAsked_def handleEnterCode_def getUserByTelegramId_def getUserByReferralCode_def
        demoWorld_def ann_def bob_def truthy_def referralRewardAmount_def)
  note t1 = referral_credited_once [of "''200''" "'' abcdefgh ''" bobAsked bob ann]
  have a1: "getUserByTelegramId bobReferred (telegramId ann) = Some (ann\<lparr>coins := coins ann + 5\<rparr>)"
    and a2: "getUserByTelegramId bobReferred ''200'' =
               Some (bob\<lparr>coins := coins bob + 5, referredBy := Some ''ABCDEFGH''\<rparr>)"
    and a3: "transactions bobReferred = transactions bobAsked @
            [\<lparr>userId = uid ann, ttype = Referral, amount = 5,
               description = ''Referral bonus for inviting '' @ displayName bob\<rparr>,
             \<lparr>userId = uid bob, ttype = Referral, amount = 5,
               description = ''Bonus for using invitation code''\<rparr>]"
    using t1 i h1 h2 h3 h4 h5 unfolding c h6 bobReferred_def by blast+
  have b1: "getUserByTelegramId bobAskedAgain ''200'' =
               Some (bob\<lparr>coins := coins bob + 5, referredBy := Some ''ABCDEFGH''\<rparr>)"
    and b2: "map_option fst (userStates bobAskedAgain ''200'') = Some ''expecting_invite_code''"
    using a2 by (simp_all add: bobAskedAgain_def handleEnterCode_def getUserByTelegramId_def)
  have b3: "truthy (referredBy (bob\<lparr>coins := coins bob + 5, referredBy := Some ''ABCDEFGH''\<rparr>))"
    by (simp add: truthy_def)
  have b4: "getUserByReferralCode bobAskedAgain ''ABCDEFGH'' = Some (ann\<lparr>coins := coins ann + 5\<rparr>)"
    by code_simp
  note t2 = referral_credited_once [of "''200''" "''abcdefgh''" bobAskedAgain
      "bob\<lparr>coins := coins bob + 5, referredBy := Some ''ABCDEFGH''\<rparr>"]
  have s1: "users (fst (message_handler bobAskedAgain ''200'' ''abcdefgh'')) = users bobAskedAgain"
    and s2: "transactions (fst (message_handler bobAskedAgain ''200'' ''abcdefgh'')) = transactions bobAskedAgain"
    and s3: "snd (message_handler bobAskedAgain ''200'' ''abcdefgh'') =
            [case getUserByReferralCode bobAskedAgain ''ABCDEFGH'' of
               None \<Rightarrow> InvalidInviteCode
             | Some owner \<Rightarrow> if uid owner = uid (bob\<lparr>coins := coins bob + 5, referredBy := Some ''ABCDEFGH''\<rparr>)
                 then OwnInviteCode else AlreadyUsedInviteCode]"
    using t2 i b1 b2 b3 unfolding c by blast+
  have s3': "snd (message_handler bobAskedAgain ''200'' ''abcdefgh'') = [AlreadyUsedInviteCode]"
    unfolding s3 b4 by (simp add: ann_def bob_def)
  have e1: "map_option coins (getUserByTelegramId bobReferred ''100'') = Some 15"
    using a1 by (simp add: ann_def)
  have e2: "map_option coins (getUserByTelegramId bobReferred ''200'') = Some 5"
    "map_option referredBy (getUserByTelegramId bobReferred ''200'') = Some (Some ''ABCDEFGH'')"
    using a2 by (simp_all add: bob_def)
  have e3: "map amount (transactions bobReferred) = [10, 5, 5]"
    unfolding a3 by (simp add: bobAsked_def handleEnterCode_def demoWorld_def)
  from e1 e2 e3 s3' s1 s2 show ?thesis by blast
qed

text \<open>Claim C2 as stated fails: Bob's referredBy is set, he applies a code that nobody
  owns, and the answer is "invalid code", not "already used".\<close>

theorem second_attempt_unknown_code_counterexample:
  "map_option referredBy (getUserByTelegramId bobAskedAgain ''200'') = Some (Some ''ABCDEFGH'')
   \<and> getUserByReferralCode bobAskedAgain (toUpperCase (trim ''nobody'')) = None
   \<and> snd (message_handler bobAskedAgain ''200'' ''nobody'') = [InvalidInviteCode]
   \<and> snd (message_handler bobAskedAgain ''200'' ''nobody'') \<noteq> [AlreadyUsedInviteCode]"
  by code_simp

text \<open>What \<^verbatim>\<open>/start\<close> does for a user that does not exist yet: the row is created with
  referredBy already set to the code, so the referral block that follows is skipped and
  nobody is credited.\<close>

lemma start_new_user_not_credited:
  assumes "tid \<noteq> []" "getUserByTelegramId s tid = None" "code \<noteq> []"
  shows "users (fst (start_cmd s tid a b c (Some code) nano)) =
           users s @ [\<lparr>uid = nextUserId s, telegramId = tid, username = js_or a None,
                        firstName = js_or b None, lastName = js_or c None,
                        referralCode = generateReferralCode nano, referredBy = Some code,
                        coins = 0, streak = 0, lastDailyReward = None\<rparr>]"
    and "transactions (fst (start_cmd s tid a b c (Some code) nano)) = transactions s"
    and "snd (start_cmd s tid a b c (Some code) nano) = [MainMenu 0]"
  using assms by (simp_all add: start_cmd_def createUser_def Let_def js_or_def truthy_def)

lemma start_new_user_example:
  "map coins (users (fst (start_cmd demoWorld ''300'' (Some ''cy'') None None (Some ''ABCDEFGH'') ''qrstuvwx'')))
     = [10, 0, 0]
   \<and> transactions (fst (start_cmd demoWorld ''300'' (Some ''cy'') None None (Some ''ABCDEFGH'') ''qrstuvwx''))
     = transactions demoWorld"
  by code_simp

section \<open>Invitation codes\<close>

lemma toUpperChar_idem: "toUpperChar (toUpperChar c) = toUpperChar c"
  by (auto simp: toUpperChar_def Let_def)

lemma toUpperCase_idem: "toUpperCase (toUpperCase z) = toUpperCase z"
  by (simp add: toUpperCase_def toUpperChar_idem)

lemma toUpperChar_space: "isSpace (toUpperChar c) = isSpace c"
  by (auto simp: toUpperChar_def isSpace_def Let_def)

lemma nanoidUnit_not_space: "nanoidUnit c \<Longrightarrow> \<not> isSpace c"
  by (auto simp: nanoidUnit_def isSpace_def Let_def)

lemma trim_padded:
  assumes "v \<noteq> []" "\<not> isSpace (hd v)" "\<not> isSpace (last v)" "list_all isSpace ws1" "list_all isSpace ws2"
  shows "trim (ws1 @ v @ ws2) = v"
proof -
  have a: "dropWhile isSpace (ws1 @ v @ ws2) = v @ ws2"
    using assms by (cases v) (auto simp: dropWhile_append list_all_iff)
  have "rev v \<noteq> []" "\<not> isSpace (hd (rev v))" using assms by (simp_all add: hd_rev)
  then have "dropWhile isSpace (rev ws2 @ rev v) = rev v"
    using assms(5) by (cases "rev v") (auto simp: dropWhile_append list_all_iff)
  then show ?thesis by (simp add: trim_def a)
qed

lemma variant_no_space:
  assumes "nanoid8 nano" "toUpperCase v = generateReferralCode nano"
  shows "length v = 8" "\<forall>c\<in>set v. \<not> isSpace c"
proof -
  have eq: "map toUpperChar v = map toUpperChar nano"
    using assms(2) by (simp add: toUpperCase_def generateReferralCode_def)
  have "length v = length nano" using eq by (metis length_map)
  then show "length v = 8" using assms(1) by (simp add: nanoid8_def)
  show "\<forall>c\<in>set v. \<not> isSpace c"
  proof
    fix c assume "c \<in> set v"
    then have "toUpperChar c \<in> set (map toUpperChar nano)" using eq by (metis imageI set_map)
    then obtain d where d: "d \<in> set nano" "toUpperChar c = toUpperChar d" by auto
    have "nanoidUnit d" using assms(1) d(1) by (simp add: nanoid8_def list_all_iff)
    then have "\<not> isSpace (toUpperChar d)" by (simp add: toUpperChar_space nanoidUnit_not_space)
    then show "\<not> isSpace c" using d(2) by (metis toUpperChar_space)
  qed
qed

lemma variant_not_slash:
  assumes "nanoid8 nano" "toUpperCase v = generateReferralCode nano" "list_all isSpace ws1"
  shows "\<not> startsWith (ws1 @ v @ ws2) ''/''"
proof -
  have sl: "\<And>c d. nanoidUnit d \<Longrightarrow> toUpperChar c = toUpperChar d \<Longrightarrow> c \<noteq> CHR ''/''"
  proof
    fix c d assume d: "nanoidUnit d" and e: "toUpperChar c = toUpperChar d" and c: "c = CHR ''/''"
    have "of_char (toUpperChar c) = (47::nat)" unfolding c by code_simp
    then have "of_char (toUpperChar d) = (47::nat)" using e by simp
    then show False using d by (auto simp: toUpperChar_def nanoidUnit_def Let_def split: if_splits)
  qed
  have sp: "\<not> isSpace CHR ''/''" by code_simp
  have eq: "map toUpperChar v = map toUpperChar nano"
    using assms(2) by (simp add: toUpperCase_def generateReferralCode_def)
  have "length v = length nano" using eq by (metis length_map)
  then have lv: "length v = 8" using assms(1) by (simp add: nanoid8_def)
  then obtain a w where v: "v = a # w" by (cases v) auto
  obtain b z where z: "nano = b # z" using assms(1) by (cases nano) (auto simp: nanoid8_def)
  have "toUpperChar a = toUpperChar b" "nanoidUnit b"
    using eq assms(1) by (simp_all add: v z nanoid8_def)
  then have a: "a \<noteq> CHR ''/''" using sl by blast
  show ?thesis
  proof (cases ws1)
    case Nil
    then show ?thesis using a by (simp add: startsWith_def v)
  next
    case (Cons x xs)
    then have "isSpace x" using assms(3) by simp
    then have "x \<noteq> CHR ''/''" using sp by auto
    then show ?thesis by (simp add: startsWith_def Cons)
  qed
qed

lemma find_distinct_key:
  "distinct (map k xs) \<Longrightarrow> x \<in> set xs \<Longrightarrow> find (\<lambda>u. k u = k x) xs = Some x"
  by (induction xs) (auto simp: image_iff)

text \<open>
  Claim C10. A generated referral code has 8 units and is its own upper-case form. The
  invitation-code branch looks up \<^verbatim>\<open>text.trim().toUpperCase()\<close>, so a text made of white
  space, any spelling \<^verbatim>\<open>v\<close> whose upper-case form is the code, and white space again is
  looked up as the code itself. The user who holds the code is the one the lookup
  returns (codes being unique), and the branch does for the text what it does for the
  code: with the owner found, the sender is told that the code is the sender's own, or
  that the sender has used a code before, or else the owner and the sender are credited
  and the sender's referredBy becomes the code; with no owner, the code is invalid. The
  message handler, for a registered sender whose invitation state is pending, runs this
  branch on the text.
\<close>

theorem invite_code_normalised:
  "(nanoid8 nano \<longrightarrow>
      length (generateReferralCode nano) = 8
      \<and> toUpperCase (generateReferralCode nano) = generateReferralCode nano)
   \<and> (nanoid8 nano \<and> toUpperCase v = generateReferralCode nano
        \<and> list_all isSpace ws1 \<and> list_all isSpace ws2 \<longrightarrow>
        toUpperCase (trim (ws1 @ v @ ws2)) = generateReferralCode nano
        \<and> redeemInvite s usr (ws1 @ v @ ws2) = redeemInvite s usr (generateReferralCode nano)
        \<and> (getUserByReferralCode s (generateReferralCode nano) = None \<longrightarrow>
             redeemInvite s usr (ws1 @ v @ ws2) = (s, [InvalidInviteCode]))
        \<and> (owner \<in> set (users s) \<and> referralCode owner = generateReferralCode nano
             \<and> distinct (map referralCode (users s)) \<longrightarrow>
             getUserByReferralCode s (toUpperCase (trim (ws1 @ v @ ws2))) = Some owner)
        \<and> (getUserByReferralCode s (generateReferralCode nano) = Some owner \<longrightarrow>
             getUserByReferralCode s (toUpperCase (trim (ws1 @ v @ ws2))) = Some owner
             \<and> referralCode owner = generateReferralCode nano
             \<and> (uid owner = uid usr \<longrightarrow>
                  redeemInvite s usr (ws1 @ v @ ws2) = (s, [OwnInviteCode]))
             \<and> (uid owner \<noteq> uid usr \<and> truthy (referredBy usr) \<longrightarrow>
                  redeemInvite s usr (ws1 @ v @ ws2) = (s, [AlreadyUsedInviteCode]))
             \<and> (uid owner \<noteq> uid usr \<and> \<not> truthy (referredBy usr)
                  \<and> getUserByTelegramId s (telegramId usr) = Some usr
                  \<and> getUserByTelegramId s (telegramId owner) = Some owner \<longrightarrow>
                  snd (redeemInvite s usr (ws1 @ v @ ws2)) =
                    [InviteCodeAccepted (generateReferralCode nano) (referralRewardAmount s)
                       (coins usr + referralRewardAmount s)]
                  \<and> getUserByTelegramId (fst (redeemInvite s usr (ws1 @ v @ ws2))) (telegramId owner) =
                      Some (owner\<lparr>coins := coins owner + referralRewardAmount s\<rparr>)
                  \<and> getUserByTelegramId (fst (redeemInvite s usr (ws1 @ v @ ws2))) (telegramId usr) =
                      Some (usr\<lparr>coins := coins usr + referralRewardAmount s,
                                referredBy := Some (generateReferralCode nano)\<rparr>)))
        \<and> (tid \<noteq> [] \<and> getUserByTelegramId s tid = Some usr
             \<and> map_option fst (userStates s tid) = Some ''expecting_invite_code'' \<longrightarrow>
             message_handler s tid (ws1 @ v @ ws2) =
               redeemInvite (s\<lparr>userStates := (userStates s)(tid := None)\<rparr>) usr
                 (generateReferralCode nano)))"
proof (intro conjI impI)
  assume "nanoid8 nano"
  then show "length (generateReferralCode nano) = 8"
    by (simp add: nanoid8_def generateReferralCode_def toUpperCase_def)
  show "toUpperCase (generateReferralCode nano) = generateReferralCode nano"
    by (simp add: generateReferralCode_def toUpperCase_idem)
next
  assume h: "nanoid8 nano \<and> toUpperCase v = generateReferralCode nano
        \<and> list_all isSpace ws1 \<and> list_all isSpace ws2"
  let ?inp = "ws1 @ v @ ws2"
  let ?code = "generateReferralCode nano"
  have len: "length v = 8" and ns: "\<forall>c\<in>set v. \<not> isSpace c"
    using variant_no_space [of nano v] h by simp_all
  have ne: "v \<noteq> []" using len by auto
  have tv: "trim ?inp = v"
    using h ne ns by (intro trim_padded) simp_all
  have self: "trim ?code = ?code"
  proof -
    have "toUpperCase ?code = ?code"
      by (simp add: generateReferralCode_def toUpperCase_idem)
    then have l: "length ?code = 8"
      and n: "\<forall>c\<in>set ?code. \<not> isSpace c"
      using variant_no_space [of nano ?code] h by simp_all
    have "?code \<noteq> []" using l by auto
    then have "trim ([] @ ?code @ []) = ?code"
      using n by (intro trim_padded) simp_all
    then show ?thesis by simp
  qed
  show a: "toUpperCase (trim ?inp) = ?code"
    using h by (simp add: tv)
  have b: "toUpperCase (trim ?code) = ?code"
    unfolding self by (simp add: generateReferralCode_def toUpperCase_idem)
  show same: "redeemInvite s usr ?inp = redeemInvite s usr ?code"
    by (simp add: redeemInvite_def a b)
  show "getUserByReferralCode s ?code = None \<Longrightarrow> redeemInvite s usr ?inp = (s, [InvalidInviteCode])"
    by (simp add: redeemInvite_def a)
  show "owner \<in> set (users s) \<and> referralCode owner = ?code \<and> distinct (map referralCode (users s))
          \<Longrightarrow> getUserByReferralCode s (toUpperCase (trim ?inp)) = Some owner"
    using find_distinct_key [of referralCode "users s" owner]
    by (auto simp: a getUserByReferralCode_def)
  {
    assume o: "getUserByReferralCode s ?code = Some owner"
    show "getUserByReferralCode s (toUpperCase (trim ?inp)) = Some owner"
      using o by (simp add: a)
    show "referralCode owner = ?code"
      using o by (auto simp: getUserByReferralCode_def find_Some_iff)
    show "uid owner = uid usr \<Longrightarrow> redeemInvite s usr ?inp = (s, [OwnInviteCode])"
      using o by (simp add: redeemInvite_def a)
    show "uid owner \<noteq> uid usr \<and> truthy (referredBy usr) \<Longrightarrow>
            redeemInvite s usr ?inp = (s, [AlreadyUsedInviteCode])"
      using o by (simp add: redeemInvite_def a)
    assume g: "uid owner \<noteq> uid usr \<and> \<not> truthy (referredBy usr)
                  \<and> getUserByTelegramId s (telegramId usr) = Some usr
                  \<and> getUserByTelegramId s (telegramId owner) = Some owner"
    have c: "getUserByReferralCode s (toUpperCase (trim ?inp)) = Some owner"
      using o by (simp add: a)
    note acc = redeem_accepted [of s usr owner ?inp, unfolded a]
    have g1: "getUserByTelegramId s (telegramId usr) = Some usr"
      and g2: "getUserByTelegramId s (telegramId owner) = Some owner"
      and g3: "uid owner \<noteq> uid usr" and g4: "\<not> truthy (referredBy usr)"
      using g by simp_all
    show "snd (redeemInvite s usr ?inp) =
            [InviteCodeAccepted ?code (referralRewardAmount s) (coins usr + referralRewardAmount s)]"
      using acc(1) [OF g1 g2 o g3 g4] .
    show "getUserByTelegramId (fst (redeemInvite s usr ?inp)) (telegramId owner) =
            Some (owner\<lparr>coins := coins owner + referralRewardAmount s\<rparr>)"
      using acc(2) [OF g1 g2 o g3 g4] .
    show "getUserByTelegramId (fst (redeemInvite s usr ?inp)) (telegramId usr) =
            Some (usr\<lparr>coins := coins usr + referralRewardAmount s, referredBy := Some ?code\<rparr>)"
      using acc(3) [OF g1 g2 o g3 g4] .
  }
  assume p: "tid \<noteq> [] \<and> getUserByTelegramId s tid = Some usr
             \<and> map_option fst (userStates s tid) = Some ''expecting_invite_code''"
  have sl: "\<not> startsWith ?inp ''/''" using h by (intro variant_not_slash [of nano]) simp_all
  have nn: "?inp \<noteq> []" using ne by simp
  have "message_handler s tid ?inp =
          redeemInvite (s\<lparr>userStates := (userStates s)(tid := None)\<rparr>) usr ?inp"
    using p sl nn by (intro message_handler_pending) simp_all
  also have "\<dots> = redeemInvite (s\<lparr>userStates := (userStates s)(tid := None)\<rparr>) usr ?code"
    by (simp add: redeemInvite_def a b)
  finally show "message_handler s tid ?inp =
          redeemInvite (s\<lparr>userStates := (userStates s)(tid := None)\<rparr>) usr ?code" .
qed

text \<open>The theorem for the code generated from abcdEFGH, which is Ann's, typed by Bob in
  mixed case between blanks: the lookup returns Ann, Bob is answered that the code
  ABCDEFGH was accepted with 5 coins, Ann is credited to 15, and the message handler does
  the same after Bob asked for the prompt.\<close>

theorem invite_code_normalised_witness:
  "length (generateReferralCode ''abcdEFGH'') = 8
   \<and> generateReferralCode ''abcdEFGH'' = ''ABCDEFGH''
   \<and> toUpperCase (trim ''  AbCdefgH   '') = ''ABCDEFGH''
   \<and> getUserByReferralCode demoWorld (toUpperCase (trim ''  AbCdefgH   '')) = Some ann
   \<and> snd (redeemInvite demoWorld bob ''  AbCdefgH   '') = [InviteCodeAccepted ''ABCDEFGH'' 5 5]
   \<and> map_option coins (getUserByTelegramId (fst (redeemInvite demoWorld bob ''  AbCdefgH   '')) ''100'')
       = Some 15
   \<and> message_handler bobAsked ''200'' ''  AbCdefgH   '' =
       redeemInvite (bobAsked\<lparr>userStates := (userStates bobAsked)(''200'' := None)\<rparr>) bob ''ABCDEFGH''
   \<and> snd (message_handler bobAsked ''200'' ''  AbCdefgH   '') = [InviteCodeAccepted ''ABCDEFGH'' 5 5]"
proof -
  have g: "generateReferralCode ''abcdEFGH'' = ''ABCDEFGH''" by code_simp
  have h1: "nanoid8 ''abcdEFGH''" by code_simp
  have h2: "toUpperCase ''AbCdefgH'' = generateReferralCode ''abcdEFGH''" by code_simp
  have h3: "list_all isSpace ''  ''" "list_all isSpace ''   ''" by (simp_all add: isSpace_def)
  have p: "''  AbCdefgH   '' = ''  '' @ ''AbCdefgH'' @ ''   ''" by simp
  have o1: "ann \<in> set (users demoWorld)" by (simp add: demoWorld_def)
  have o2: "referralCode ann = ''ABCDEFGH''" by (simp add: ann_def)
  have o3: "distinct (map referralCode (users demoWorld))" by (simp add: demoWorld_def ann_def bob_def)
  have o4: "getUserByReferralCode demoWorld ''ABCDEFGH'' = Some ann"
    by (simp add: getUserByReferralCode_def demoWorld_def ann_def)
  have u1: "getUserByTelegramId demoWorld (telegramId bob) = Some bob"
    by (simp add: getUserByTelegramId_def demoWorld_def ann_def bob_def)
  have u2: "getUserByTelegramId demoWorld (telegramId ann) = Some ann"
    by (simp add: getUserByTelegramId_def demoWorld_def ann_def)
  have u3: "uid ann \<noteq> uid bob" "\<not> truthy (referredBy bob)" by (simp_all add: ann_def bob_def truthy_def)
  have amt: "referralRewardAmount demoWorld = 5" by code_simp
  have q1: "''200'' \<noteq> []" by simp
  have q2: "getUserByTelegramId bobAsked ''200'' = Some bob"
    by (simp add: bobAsked_def handleEnterCode_def getUserByTelegramId_def demoWorld_def ann_def bob_def)
  have q3: "map_option fst (userStates bobAsked ''200'') = Some ''expecting_invite_code''"
    by (simp add: bobAsked_def handleEnterCode_def)
  note t = invite_code_normalised [of "''abcdEFGH''" "''AbCdefgH''" "''  ''" "''   ''" demoWorld bob ann]
  note t' = invite_code_normalised [of "''abcdEFGH''" "''AbCdefgH''" "''  ''" "''   ''" bobAsked bob ann
      "''200''"]
  have a: "length (generateReferralCode ''abcdEFGH'') = 8" using t h1 by blast
  have b: "toUpperCase (trim ''  AbCdefgH   '') = ''ABCDEFGH''"
    using t h1 h2 h3 unfolding p g by blast
  have c: "getUserByReferralCode demoWorld (toUpperCase (trim ''  AbCdefgH   '')) = Some ann"
    using t h1 h2 h3 o1 o2 o3 unfolding p g by blast
  have d: "snd (redeemInvite demoWorld bob ''  AbCdefgH   '') = [InviteCodeAccepted ''ABCDEFGH'' 5 5]"
  proof -
    have "snd (redeemInvite demoWorld bob (''  '' @ ''AbCdefgH'' @ ''   '')) =
            [InviteCodeAccepted ''ABCDEFGH'' (referralRewardAmount demoWorld)
               (coins bob + referralRewardAmount demoWorld)]"
      using t h1 h2 h3 o4 u1 u2 u3 unfolding g by blast
    then show ?thesis by (simp add: amt bob_def)
  qed
  have e: "map_option coins (getUserByTelegramId (fst (redeemInvite demoWorld bob ''  AbCdefgH   '')) ''100'')
             = Some 15"
  proof -
    have "getUserByTelegramId (fst (redeemInvite demoWorld bob (''  '' @ ''AbCdefgH'' @ ''   ''))) (telegramId ann) =
            Some (ann\<lparr>coins := coins ann + referralRewardAmount demoWorld\<rparr>)"
      using t h1 h2 h3 o4 u1 u2 u3 unfolding g by blast
    then show ?thesis by (simp add: amt ann_def)
  qed
  have f: "message_handler bobAsked ''200'' ''  AbCdefgH   '' =
       redeemInvite (bobAsked\<lparr>userStates := (userStates bobAsked)(''200'' := None)\<rparr>) bob ''ABCDEFGH''"
    using t' h1 h2 h3 q1 q2 q3 unfolding p g by blast
  have f2: "snd (message_handler bobAsked ''200'' ''  AbCdefgH   '') = [InviteCodeAccepted ''ABCDEFGH'' 5 5]"
    by code_simp
  from a g b c d e f f2 show ?thesis by blast
qed

section \<open>Two purchases at the exact balance\<close>

lemma dispatch_shop:
  assumes "startsWith cdata ''shop_''"
  shows "callback_dispatch s tid usr cdata now writeTime =
           handleShopPurchase s tid usr (parseInt (splitSecond cdata))"
proof -
  have "take (length ''shop_'') cdata @ drop (length ''shop_'') cdata = cdata"
    by (rule append_take_drop_id)
  then obtain rest where t: "cdata = ''shop_'' @ rest"
    using assms unfolding startsWith_def by metis
  have "cdata \<noteq> ''daily_checkin''" "cdata \<noteq> ''view_raffles''" "cdata \<noteq> ''view_shop''"
    "cdata \<noteq> ''referral_link''" "cdata \<noteq> ''my_info''" "cdata \<noteq> ''enter_code''"
    "cdata \<noteq> ''back_to_menu''" "\<not> startsWith cdata ''raffle_''"
    unfolding t by (simp_all add: startsWith_def)
  then show ?thesis using assms by (simp add: callback_dispatch_def)
qed

lemma findItem_updateShopItem:
  assumes "\<And>v. iid (f v) = iid v"
  shows "find (\<lambda>i. Some (int (iid i)) = no) (getAllShopItems (updateShopItem s k f)) =
           map_option (\<lambda>x. if iid x = k then f x else x)
             (find (\<lambda>i. Some (int (iid i)) = no) (getAllShopItems s))"
  unfolding getAllShopItems_def updateShopItem_def
  by (simp add: find_map_same assms)

lemma purchase_effect:
  assumes ok: "\<not> coins usr < cost it" "\<not> (case stock it of None \<Rightarrow> False | Some k \<Rightarrow> k \<le> 0)"
    and g: "getUserByTelegramId s tid = Some usr"
    and f: "find (\<lambda>i. Some (int (iid i)) = no) (getAllShopItems s) = Some it"
  shows "snd (purchaseFor s tid usr it) = [Purchased (itemName it) (coins usr - cost it)]"
    and "getUserByTelegramId (fst (purchaseFor s tid usr it)) tid = Some (usr\<lparr>coins := coins usr - cost it\<rparr>)"
    and "map_option cost (find (\<lambda>i. Some (int (iid i)) = no) (getAllShopItems (fst (purchaseFor s tid usr it))))
           = Some (cost it)"
    and "purchases (fst (purchaseFor s tid usr it)) =
           purchases s @ [\<lparr>purchaseUserId = uid usr, itemId = iid it, quantity = 1,
                            totalCost = cost it, status = ''completed''\<rparr>]"
    and "transactions (fst (purchaseFor s tid usr it)) =
           transactions s @ [\<lparr>userId = uid usr, ttype = ShopPurchase, amount = - cost it,
                               description = ''Shop purchase: '' @ itemName it\<rparr>]"
proof -
  show "snd (purchaseFor s tid usr it) = [Purchased (itemName it) (coins usr - cost it)]"
    using ok by (simp add: purchaseFor_def Let_def)
  have u: "getUserByTelegramId (updateUser s tid (\<lambda>v. v\<lparr>coins := coins usr - cost it\<rparr>)) tid
             = Some (usr\<lparr>coins := coins usr - cost it\<rparr>)"
    using g by (simp add: getUser_updateUser)
  show "getUserByTelegramId (fst (purchaseFor s tid usr it)) tid = Some (usr\<lparr>coins := coins usr - cost it\<rparr>)"
    using ok u
    by (simp add: purchaseFor_def Let_def getUserByTelegramId_def createTransaction_def
        updateShopItem_def createPurchase_def split: option.splits)
  have i: "\<And>k. map_option cost (find (\<lambda>i. Some (int (iid i)) = no)
              (getAllShopItems (updateShopItem s (iid it) (\<lambda>x. x\<lparr>stock := Some (k - 1)\<rparr>)))) = Some (cost it)"
    using f by (simp add: findItem_updateShopItem)
  show "map_option cost (find (\<lambda>i. Some (int (iid i)) = no) (getAllShopItems (fst (purchaseFor s tid usr it))))
           = Some (cost it)"
    using ok f i
    by (simp add: purchaseFor_def Let_def getAllShopItems_def createTransaction_def
        updateShopItem_def createPurchase_def updateUser_def split: option.splits)
  show "purchases (fst (purchaseFor s tid usr it)) =
           purchases s @ [\<lparr>purchaseUserId = uid usr, itemId = iid it, quantity = 1,
                            totalCost = cost it, status = ''completed''\<rparr>]"
    using ok
    by (simp add: purchaseFor_def Let_def createTransaction_def
        updateShopItem_def createPurchase_def updateUser_def split: option.splits)
  show "transactions (fst (purchaseFor s tid usr it)) =
           transactions s @ [\<lparr>userId = uid usr, ttype = ShopPurchase, amount = - cost it,
                               description = ''Shop purchase: '' @ itemName it\<rparr>]"
    using ok
    by (simp add: purchaseFor_def Let_def createTransaction_def
        updateShopItem_def createPurchase_def updateUser_def split: option.splits)
qed

text \<open>
  Claim C4, as the code has it. When two purchase callbacks of one user for an item that
  is in stock and costs exactly the user's positive balance are handled one after the
  other, the second starting after the first has finished, the first succeeds and the
  second is rejected for its balance, leaving the state of the first.
\<close>

theorem exact_balance_purchases_in_turn:
  assumes d: "startsWith cdata ''shop_''"
    and g: "getUserByTelegramId s tid = Some usr"
    and f: "find (\<lambda>i. Some (int (iid i)) = parseInt (splitSecond cdata)) (getAllShopItems s) = Some it"
    and c: "cost it = coins usr" "0 < cost it"
    and k: "\<not> (case stock it of None \<Rightarrow> False | Some k \<Rightarrow> k \<le> 0)"
  shows "snd (callback_query s tid cdata now1 write1) = [Purchased (itemName it) 0]
       \<and> snd (callback_query (fst (callback_query s tid cdata now1 write1)) tid cdata now2 write2)
           = [NotEnoughCoins (cost it)]
       \<and> fst (callback_query (fst (callback_query s tid cdata now1 write1)) tid cdata now2 write2)
           = fst (callback_query s tid cdata now1 write1)
       \<and> purchases (fst (callback_query s tid cdata now1 write1)) =
           purchases s @ [\<lparr>purchaseUserId = uid usr, itemId = iid it, quantity = 1,
                            totalCost = cost it, status = ''completed''\<rparr>]
       \<and> map_option coins (getUserByTelegramId (fst (callback_query s tid cdata now1 write1)) tid) = Some 0"
proof -
  let ?no = "parseInt (splitSecond cdata)"
  have ne: "cdata \<noteq> []" using d by (auto simp: startsWith_def)
  have q: "\<And>w u n1 n2. getUserByTelegramId w tid = Some u \<Longrightarrow>
            callback_query w tid cdata n1 n2 = handleShopPurchase w tid u ?no"
    using ne by (simp add: callback_query_def dispatch_shop [OF d])
  have q1: "callback_query s tid cdata now1 write1 = purchaseFor s tid usr it"
    using q [OF g] f by (simp add: handleShopPurchase_def)
  have ok: "\<not> coins usr < cost it" using c by simp
  note e = purchase_effect [OF ok k g f]
  let ?s1 = "fst (purchaseFor s tid usr it)"
  obtain it' where f1: "find (\<lambda>i. Some (int (iid i)) = ?no) (getAllShopItems ?s1) = Some it'"
    and c1: "cost it' = cost it"
    using e(3) by (cases "find (\<lambda>i. Some (int (iid i)) = ?no) (getAllShopItems ?s1)") auto
  have q2: "callback_query ?s1 tid cdata now2 write2 =
              purchaseFor ?s1 tid (usr\<lparr>coins := coins usr - cost it\<rparr>) it'"
    using q [OF e(2)] f1 by (simp add: handleShopPurchase_def)
  have r2: "purchaseFor ?s1 tid (usr\<lparr>coins := coins usr - cost it\<rparr>) it' = (?s1, [NotEnoughCoins (cost it)])"
    using c c1 by (simp add: purchaseFor_def)
  have A: "snd (callback_query s tid cdata now1 write1) = [Purchased (itemName it) 0]"
    using e(1) c by (simp add: q1)
  have S: "fst (callback_query s tid cdata now1 write1) = ?s1" by (simp add: q1)
  have B: "callback_query ?s1 tid cdata now2 write2 = (?s1, [NotEnoughCoins (cost it)])"
    using q2 r2 by simp
  have C: "map_option coins (getUserByTelegramId ?s1 tid) = Some 0" using e(2) c by simp
  show ?thesis unfolding S B using A C e(4) by simp
qed

text \<open>The theorem for Ann and the gift, which costs her whole balance of 10.\<close>

theorem exact_balance_purchases_in_turn_witness:
  "snd (callback_query demoWorld ''100'' ''shop_1'' 1 1) = [Purchased ''gift'' 0]
   \<and> snd (callback_query (fst (callback_query demoWorld ''100'' ''shop_1'' 1 1)) ''100'' ''shop_1'' 2 2)
       = [NotEnoughCoins 10]"
proof -
  have d: "startsWith ''shop_1'' ''shop_''" by (simp add: startsWith_def)
  have g: "getUserByTelegramId demoWorld ''100'' = Some ann"
    by (simp add: getUserByTelegramId_def demoWorld_def ann_def)
  have p: "parseInt (splitSecond ''shop_1'') = Some 1" by code_simp
  have f: "find (\<lambda>i. Some (int (iid i)) = parseInt (splitSecond ''shop_1'')) (getAllShopItems demoWorld)
             = Some giftItem"
    unfolding p by (simp add: getAllShopItems_def demoWorld_def giftItem_def)
  have c: "cost giftItem = coins ann" "0 < cost giftItem"
    "\<not> (case stock giftItem of None \<Rightarrow> False | Some k \<Rightarrow> k \<le> 0)"
    by (simp_all add: giftItem_def ann_def)
  show ?thesis
    using exact_balance_purchases_in_turn [OF d g f c, of 1 1 2 2]
    by (simp add: giftItem_def)
qed

text \<open>
  Claim C4 as stated fails. The callback-query handler reads the user at line 565 and
  hands that object to \<^verbatim>\<open>handleShopPurchase\<close>, which awaits the storage before it checks
  and writes; nothing serialises two handlers of one user. When both handlers have read
  Ann (10 coins) before either writes, each runs its dispatch with that same object: both
  purchases succeed, two Purchase rows exist, the balance is written as 0 twice, and the
  log holds two debits of 10 against one balance of 10, which no order of the two requests
  run in turn produces.
\<close>

theorem interleaved_purchases_both_succeed_counterexample:
  "getUserByTelegramId demoWorld ''100'' = Some ann
   \<and> cost giftItem = coins ann
   \<and> snd (callback_dispatch demoWorld ''100'' ann ''shop_1'' 1 1) = [Purchased ''gift'' 0]
   \<and> snd (callback_dispatch (fst (callback_dispatch demoWorld ''100'' ann ''shop_1'' 1 1))
            ''100'' ann ''shop_1'' 1 1) = [Purchased ''gift'' 0]
   \<and> length (purchases (fst (callback_dispatch (fst (callback_dispatch demoWorld ''100'' ann ''shop_1'' 1 1))
            ''100'' ann ''shop_1'' 1 1))) = 2
   \<and> map amount (transactions (fst (callback_dispatch (fst (callback_dispatch demoWorld ''100'' ann ''shop_1'' 1 1))
            ''100'' ann ''shop_1'' 1 1))) = [10, - 10, - 10]
   \<and> map coins (users (fst (callback_dispatch (fst (callback_dispatch demoWorld ''100'' ann ''shop_1'' 1 1))
            ''100'' ann ''shop_1'' 1 1))) = [0, 0]"
  by code_simp

section \<open>Daily claims\<close>

lemma canClaim_later_day:
  "canClaimDailyReward off now (Some l) =
     ((toPST l + off) div 86400000 < (toPST now + off) div 86400000)"
  by (simp add: canClaimDailyReward_def localMidnight_def)

lemma already_claimed_same_day:
  assumes "l \<le> now"
  shows "(\<not> canClaimDailyReward off now (Some l)) =
           ((l - 28800000 + off) div 86400000 = (now - 28800000 + off) div 86400000)"
proof -
  have "(toPST l + off) div 86400000 \<le> (toPST now + off) div 86400000"
    using assms by (intro zdiv_mono1) (simp_all add: toPST_def)
  then show ?thesis by (auto simp: canClaim_later_day toPST_def)
qed

lemma never_claimed_can_claim: "canClaimDailyReward off now None"
  by (simp add: canClaimDailyReward_def)

lemma daily_checkin_effect:
  assumes "getUserByTelegramId s tid = Some usr"
    "canClaimDailyReward (hostOffset s) now (lastDailyReward usr)"
  shows "getUserByTelegramId (fst (handleDailyCheckin s tid usr now writeTime)) tid =
           Some (usr\<lparr>coins := coins usr + dailyRewardAmount s, lastDailyReward := Some writeTime\<rparr>)"
    and "transactions (fst (handleDailyCheckin s tid usr now writeTime)) =
           transactions s @ [\<lparr>userId = uid usr, ttype = DailyReward, amount = dailyRewardAmount s,
                               description = ''Daily login reward''\<rparr>]"
    and "snd (handleDailyCheckin s tid usr now writeTime) =
           [DailyCheckinDone (dailyRewardAmount s) (coins usr + dailyRewardAmount s)]"
  using assms
  by (simp_all add: handleDailyCheckin_def Let_def awardReward_found getUser_updateUser,
      simp add: updateUser_def createTransaction_def)

lemma daily_cmd_effect:
  assumes "tid \<noteq> []" "getUserByTelegramId s tid = Some usr"
    "canClaimDailyReward (hostOffset s) now (lastDailyReward usr)"
  shows "getUserByTelegramId (fst (daily_cmd s tid now claimTime)) tid =
           Some (usr\<lparr>coins := coins usr + dailyRewardAmount s, streak := streak usr + 1,
                     lastDailyReward := Some claimTime\<rparr>)"
    and "snd (daily_cmd s tid now claimTime) =
           [DailyClaimed (dailyRewardAmount s) (streak usr + 1) (coins usr + dailyRewardAmount s)]"
  using assms
  by (simp_all add: daily_cmd_def claimDaily_def Let_def getUser_updateUser)

lemma daily_refused:
  assumes "getUserByTelegramId s tid = Some usr"
    "\<not> canClaimDailyReward (hostOffset s) now (lastDailyReward usr)"
  shows "handleDailyCheckin s tid usr now writeTime = (s, [AlreadyClaimedToday])"
    and "tid \<noteq> [] \<Longrightarrow> daily_cmd s tid now claimTime = (s, [AlreadyClaimedToday])"
  using assms by (simp_all add: handleDailyCheckin_def daily_cmd_def)

text \<open>
  Claim C3 on the button path. Ann never claimed; she presses the daily check-in button
  at time 1000 and the handler writes at 1001. \<^verbatim>\<open>handleDailyCheckin\<close> credits the daily
  amount and sets lastDailyReward, and leaves her streak at 0. The \<^verbatim>\<open>/daily\<close> command at
  the same instant, through \<^verbatim>\<open>storage.claimDaily\<close>, brings the streak to 1.
\<close>

theorem daily_checkin_button_keeps_streak:
  "map (\<lambda>u. (coins u, streak u, lastDailyReward u))
       (users (fst (callback_query demoWorld ''100'' ''daily_checkin'' 1000 1001)))
     = [(11, 0, Some 1001), (0, 0, None)]
   \<and> snd (callback_query demoWorld ''100'' ''daily_checkin'' 1000 1001) = [DailyCheckinDone 1 11]
   \<and> map (\<lambda>u. (coins u, streak u, lastDailyReward u))
       (users (fst (daily_cmd demoWorld ''100'' 1000 1001)))
     = [(11, 1, Some 1001), (0, 0, None)]"
  by code_simp

end
